theory Spec2Isabelle
  imports Main
begin

section \<open>Data model (data/crud.py)\<close>

text \<open>
  The repository stores every instant as the ISO-8601 text of a timezone-aware UTC
  \<^verbatim>\<open>datetime\<close> (\<^verbatim>\<open>datetime.now(timezone.utc).isoformat()\<close>). An instant is
  represented here by the number of microseconds it lies after 1970-01-01T00:00:00 UTC;
  the text and the instant determine each other for the instants of \<^verbatim>\<open>datetime\<close>,
  which are those of the years 1 to 9999.
\<close>

type_synonym timestamp = int

text \<open>The exception classes the modelled code raises: the two of crud.py, the built-in
  ones of Python that the code lets escape, and \<^verbatim>\<open>sqlite3.OperationalError\<close>.\<close>

datatype error =
    ChallengeResponded | RoleExists
  | TypeError | KeyError | AttributeError | OverflowError | OperationalError

text \<open>\<^verbatim>\<open>class Challenge\<close>, one row of table \<^verbatim>\<open>challenges\<close>, fields in column order.\<close>

record Challenge =
  c_id :: int
  created_str :: timestamp
  c_guild_id :: int
  text_channel_id :: int
  message_id :: int
  challenge_type :: string
  responding_member_id :: "int option"
  responded_at_str :: "timestamp option"

text \<open>The properties of \<^verbatim>\<open>Challenge\<close>.\<close>

definition created :: "Challenge \<Rightarrow> timestamp" where
  "created c = created_str c"

definition responded_at :: "Challenge \<Rightarrow> timestamp option" where
  "responded_at c = (case responded_at_str c of None \<Rightarrow> None | Some t \<Rightarrow> Some t)"

definition elapsed :: "Challenge \<Rightarrow> int option" where
  "elapsed c = (case responded_at c of None \<Rightarrow> None | Some t \<Rightarrow> Some (t - created c))"

definition is_open :: "Challenge \<Rightarrow> bool" where
  "is_open c = (responded_at c = None)"

text \<open>\<^verbatim>\<open>class MatchTypeRole\<close>, one row of table \<^verbatim>\<open>match_type_roles\<close>.\<close>

record MatchTypeRole =
  mr_id :: int
  mr_guild_id :: int
  match_type :: string
  role_id :: int

text \<open>
  The database behind an \<^verbatim>\<open>aiosqlite.Connection\<close>: the two tables, each the list of its
  rows in rowid order, which is the order in which a \<^verbatim>\<open>select\<close> without
  \<^verbatim>\<open>order by\<close> scans them and in which \<^verbatim>\<open>fetchone\<close> takes the first.
\<close>

record database =
  challenges_tbl :: "Challenge list"
  match_type_roles_tbl :: "MatchTypeRole list"

text \<open>
  Modelled from the spec: the schema script data/scripts/create.sql is not among the
  sources. The spec gives the two tables with a surrogate key \<^verbatim>\<open>id\<close> assigned on
  insert, a unique constraint on \<^verbatim>\<open>(guild_id, match_type, role_id)\<close> of
  \<^verbatim>\<open>match_type_roles\<close>, and no constraint on \<^verbatim>\<open>challenges\<close>. The key of a new
  row is one more than the largest key of the table (1 in an empty table), as SQLite
  assigns a rowid; text is compared byte by byte, SQLite's default collation.
\<close>

definition next_id :: "int list \<Rightarrow> int" where
  "next_id ids = fold max ids 0 + 1"

definition unique_violation :: "MatchTypeRole list \<Rightarrow> int \<Rightarrow> string \<Rightarrow> int \<Rightarrow> bool" where
  "unique_violation rows g mt r =
     list_ex (\<lambda>m. mr_guild_id m = g \<and> match_type m = mt \<and> role_id m = r) rows"

text \<open>\<^verbatim>\<open>str.lower()\<close>, on ASCII text: the letters A to Z move to a to z.\<close>

definition lower_char :: "char \<Rightarrow> char" where
  "lower_char c =
     (let n = (of_char c :: nat) in if 65 \<le> n \<and> n \<le> 90 then char_of (n + 32) else c)"

definition lower :: "string \<Rightarrow> string" where
  "lower s = map lower_char s"

section \<open>The repository operations (data/crud.py)\<close>

text \<open>
  Every operation takes the database as its connection sees it and returns it as the
  operation leaves it. The clock read by \<^verbatim>\<open>datetime.now(timezone.utc)\<close> is the
  parameter \<open>now\<close>.
\<close>

definition insert_challenge ::
  "database \<Rightarrow> int \<Rightarrow> int \<Rightarrow> int \<Rightarrow> string \<Rightarrow> timestamp option \<Rightarrow> timestamp
     \<Rightarrow> Challenge \<times> database" where
  "insert_challenge db guild_id text_channel message challenge_ty created_at now =
     (let created_at' = (case created_at of Some t \<Rightarrow> t | None \<Rightarrow> now);
          row = \<lparr>c_id = next_id (map c_id (challenges_tbl db)),
                 created_str = created_at',
                 c_guild_id = guild_id,
                 text_channel_id = text_channel,
                 message_id = message,
                 challenge_type = lower challenge_ty,
                 responding_member_id = None,
                 responded_at_str = None\<rparr>
      in (row, db\<lparr>challenges_tbl := challenges_tbl db @ [row]\<rparr>))"

text \<open>
  \<^verbatim>\<open>respond_to_challenge\<close>: the \<^verbatim>\<open>select\<close> reads the first row of the message; a row
  that has a respondent raises. Otherwise (also when there is no row) the
  \<^verbatim>\<open>update\<close> runs on every row of the message, \<^verbatim>\<open>returning\<close> the updated rows,
  of which \<^verbatim>\<open>fetchone\<close> takes the first. With one updated row the commit succeeds and
  the row is returned. With no updated row the commit succeeds, \<^verbatim>\<open>row\<close> is
  \<^verbatim>\<open>None\<close> and unpacking it in \<^verbatim>\<open>Challenge(*row)\<close> raises \<^verbatim>\<open>TypeError\<close>. With more
  than one, a returned row is still pending and \<^verbatim>\<open>commit\<close> raises
  \<^verbatim>\<open>OperationalError\<close> (cannot commit transaction, SQL statements in progress): the
  connection is left with the update made and not committed.
\<close>

definition respond_to_challenge ::
  "database \<Rightarrow> int \<Rightarrow> int \<Rightarrow> timestamp \<Rightarrow> (error + Challenge) \<times> database" where
  "respond_to_challenge db challenge_message_id member_id now =
     (let row = find (\<lambda>c. message_id c = challenge_message_id) (challenges_tbl db) in
      if (case row of None \<Rightarrow> False | Some c \<Rightarrow> responding_member_id c \<noteq> None)
      then (Inl ChallengeResponded, db)
      else
        (let rows' = map (\<lambda>c. if message_id c = challenge_message_id
                               then c\<lparr>responded_at_str := Some now,
                                      responding_member_id := Some member_id\<rparr>
                               else c) (challenges_tbl db);
             db' = db\<lparr>challenges_tbl := rows'\<rparr>
         in case filter (\<lambda>c. message_id c = challenge_message_id) rows' of
              [] \<Rightarrow> (Inl TypeError, db')
            | [c] \<Rightarrow> (Inr c, db')
            | c # pending # rest \<Rightarrow> (Inl OperationalError, db')))"

definition fetch_challenge :: "database \<Rightarrow> int \<Rightarrow> Challenge option" where
  "fetch_challenge db message =
     find (\<lambda>c. message_id c = message) (challenges_tbl db)"

definition fetch_all_challenges :: "database \<Rightarrow> bool \<Rightarrow> Challenge list" where
  "fetch_all_challenges db unresponded_only =
     (if unresponded_only
      then filter (\<lambda>c. responded_at_str c = None) (challenges_tbl db)
      else challenges_tbl db)"

definition fetch_roles :: "database \<Rightarrow> MatchTypeRole list" where
  "fetch_roles db = match_type_roles_tbl db"

text \<open>\<^verbatim>\<open>create_match_type_role\<close>: the insert fails with \<^verbatim>\<open>IntegrityError\<close> on the
  unique constraint, which the function turns into \<^verbatim>\<open>RoleExists\<close>.\<close>

definition create_match_type_role ::
  "database \<Rightarrow> int \<Rightarrow> string \<Rightarrow> int \<Rightarrow> (error + MatchTypeRole) \<times> database" where
  "create_match_type_role db guild_id mt role =
     (if unique_violation (match_type_roles_tbl db) guild_id mt role
      then (Inl RoleExists, db)
      else
        (let row = \<lparr>mr_id = next_id (map mr_id (match_type_roles_tbl db)),
                    mr_guild_id = guild_id, match_type = mt, role_id = role\<rparr>
         in (Inr row, db\<lparr>match_type_roles_tbl := match_type_roles_tbl db @ [row]\<rparr>)))"

definition delete_match_type_role :: "database \<Rightarrow> int \<Rightarrow> database" where
  "delete_match_type_role db row_id =
     db\<lparr>match_type_roles_tbl := filter (\<lambda>m. mr_id m \<noteq> row_id) (match_type_roles_tbl db)\<rparr>"

subsection \<open>Calendar dates and their text\<close>

text \<open>
  The history query compares dates as text. The calendar is the proleptic Gregorian one of
  \<^verbatim>\<open>datetime\<close> and of SQLite. A day is numbered by its distance from 1970-01-01;
  \<open>civil_from_days\<close> gives year, month and day of a day number: it goes to the first
  day of the 400 year cycle the day lies in, then forward year by year and month by
  month.
\<close>

definition day_us :: int where
  "day_us = 86400000000"

text \<open>The number of the day an instant lies in.\<close>

definition date_of :: "timestamp \<Rightarrow> int" where
  "date_of t = t div day_us"

definition is_leap :: "int \<Rightarrow> bool" where
  "is_leap y = (y mod 4 = 0 \<and> (y mod 100 \<noteq> 0 \<or> y mod 400 = 0))"

definition days_in_year :: "int \<Rightarrow> int" where
  "days_in_year y = (if is_leap y then 366 else 365)"

definition days_in_month :: "int \<Rightarrow> int \<Rightarrow> int" where
  "days_in_month y m =
     (if m = 2 then (if is_leap y then 29 else 28)
      else if m = 4 \<or> m = 6 \<or> m = 9 \<or> m = 11 then 30
      else 31)"

function year_from :: "int \<Rightarrow> int \<Rightarrow> int \<times> int" where
  "year_from y r =
     (if r < days_in_year y then (y, r) else year_from (y + 1) (r - days_in_year y))"
  by pat_completeness auto
termination
  by (relation "measure (\<lambda>(y, r). nat r)") (auto simp add: days_in_year_def split: if_splits)

function month_from :: "int \<Rightarrow> int \<Rightarrow> int \<Rightarrow> int \<times> int" where
  "month_from y m r =
     (if r < days_in_month y m then (m, r + 1)
      else month_from y (m + 1) (r - days_in_month y m))"
  by pat_completeness auto
termination
  by (relation "measure (\<lambda>(y, m, r). nat r)") (auto simp add: days_in_month_def split: if_splits)

definition civil_from_days :: "int \<Rightarrow> int \<times> int \<times> int" where
  "civil_from_days dn =
     (let n = dn + 719162;
          era = n div 146097
      in case year_from (400 * era + 1) (n - 146097 * era) of
           (y, doy) \<Rightarrow> (case month_from y 1 doy of (m, d) \<Rightarrow> (y, m, d)))"

text \<open>The days before a year and before a month of a year, counted from 0001-01-01 and
  from the first of January, and the order of dates: year, then month, then day.\<close>

definition days_before_year :: "int \<Rightarrow> int" where
  "days_before_year y = 365 * (y - 1) + (y - 1) div 4 - (y - 1) div 100 + (y - 1) div 400"

definition days_before_month :: "int \<Rightarrow> int \<Rightarrow> int" where
  "days_before_month y m = sum_list (map (days_in_month y) [1..m - 1])"

definition date_le :: "int \<times> int \<times> int \<Rightarrow> int \<times> int \<times> int \<Rightarrow> bool" where
  "date_le a b =
     (case a of (y, m, d) \<Rightarrow> case b of (y', m', d') \<Rightarrow>
        y < y' \<or> (y = y' \<and> (m < m' \<or> (m = m' \<and> d \<le> d'))))"

text \<open>
  Decimal text: \<open>pad k n\<close> is \<open>n\<close> in \<open>k\<close> digits with leading zeros (for
  \<open>n\<close> below \<open>10 ^ k\<close>), \<open>str_nat n\<close> is \<open>n\<close> in as many digits as it has.
  \<open>text_le\<close> is the order in which SQLite compares texts: byte by byte, a proper
  prefix before its extensions.
\<close>

definition digit_char :: "nat \<Rightarrow> char" where
  "digit_char n = char_of (48 + n)"

fun pad :: "nat \<Rightarrow> nat \<Rightarrow> string" where
  "pad 0 n = []"
| "pad (Suc k) n = pad k (n div 10) @ [digit_char (n mod 10)]"

function str_nat :: "nat \<Rightarrow> string" where
  "str_nat n = (if n < 10 then [digit_char n] else str_nat (n div 10) @ [digit_char (n mod 10)])"
  by pat_completeness auto
termination
  by (relation "measure (\<lambda>n. n)") auto

fun text_le :: "string \<Rightarrow> string \<Rightarrow> bool" where
  "text_le [] ys = True"
| "text_le (x # xs) [] = False"
| "text_le (x # xs) (y # ys) =
     ((of_char x :: nat) < of_char y \<or> (x = y \<and> text_le xs ys))"

text \<open>
  \<^verbatim>\<open>datetime\<close> holds the days from 0001-01-01 to 9999-12-31, which are the day
  numbers from \<open>min_day\<close> to \<open>max_day\<close>.

  \<^verbatim>\<open>strftime("%Y-%m-%d")\<close> of a UTC \<^verbatim>\<open>datetime\<close>: the date of the instant, month and
  day in two digits and the year in the digits it has, as the C library of Linux prints
  \<^verbatim>\<open>%Y\<close> (the year 931 gives \<^verbatim>\<open>931-09-06\<close>).

  SQLite's \<^verbatim>\<open>date(created)\<close> on the stored text, as SQLite 3.46 computes it.
  \<open>sqlite_day\<close> is the number of the day it gives and \<open>sqlite_date\<close> its text,
  \<open>date_text\<close> of that day, with the year in four digits; \<open>None\<close> is SQL's
  \<^verbatim>\<open>NULL\<close>. The date is the one written
  in the text, the UTC date of the instant, when its day of the month is 28 or less. For
  a later day of the month SQLite computes the date again from the instant with the
  seconds rounded to the millisecond, so that an instant in the last half millisecond of
  such a day is dated to the day after; past 9999-12-31 that gives \<^verbatim>\<open>NULL\<close>. A number
  outside the instants of \<^verbatim>\<open>datetime\<close> stands for no stored text and is given no
  date.
\<close>

definition min_day :: int where
  "min_day = - 719162"

definition max_day :: int where
  "max_day = 2932896"

definition date_text :: "int \<Rightarrow> string" where
  "date_text dn =
     (case civil_from_days dn of
        (y, m, d) \<Rightarrow> pad 4 (nat y) @ ''-'' @ pad 2 (nat m) @ ''-'' @ pad 2 (nat d))"

definition strftime_ymd :: "timestamp \<Rightarrow> string" where
  "strftime_ymd t =
     (case civil_from_days (date_of t) of
        (y, m, d) \<Rightarrow> str_nat (nat y) @ ''-'' @ pad 2 (nat m) @ ''-'' @ pad 2 (nat d))"

definition sqlite_day :: "timestamp \<Rightarrow> int option" where
  "sqlite_day t =
     (if date_of t < min_day \<or> max_day < date_of t then None
      else case civil_from_days (date_of t) of
             (y, m, d) \<Rightarrow>
               if 28 < d \<and> 86399999500 \<le> t mod day_us
               then (if date_of t + 1 \<le> max_day then Some (date_of t + 1) else None)
               else Some (date_of t))"

definition sqlite_date :: "timestamp \<Rightarrow> string option" where
  "sqlite_date t =
     (case sqlite_day t of
        None \<Rightarrow> None
      | Some dn \<Rightarrow> Some (date_text dn))"

text \<open>
  \<^verbatim>\<open>fetch_last_days_completed_challenges\<close>. \<^verbatim>\<open>timedelta(days=days)\<close> raises
  \<^verbatim>\<open>OverflowError\<close> for more than 999999999 days either way, and the subtraction
  raises it when the result is no instant of \<^verbatim>\<open>datetime\<close>. The two dates are passed
  to the query as text, and \<^verbatim>\<open>BETWEEN\<close> compares \<^verbatim>\<open>date(created)\<close> with them
  as text; a row whose date is \<^verbatim>\<open>NULL\<close> is not selected.
\<close>

definition fetch_last_days_completed_challenges ::
  "database \<Rightarrow> int option \<Rightarrow> int \<Rightarrow> timestamp \<Rightarrow> error + Challenge list" where
  "fetch_last_days_completed_challenges db guild_id days now =
     (if days < - 999999999 \<or> 999999999 < days then Inl OverflowError
      else
        (let back_days = now - days * day_us in
         if date_of back_days < min_day \<or> max_day < date_of back_days then Inl OverflowError
         else
           (let now_fmt = strftime_ymd now;
                back_fmt = strftime_ymd back_days
            in case guild_id of
                 None \<Rightarrow>
                   Inr (filter (\<lambda>c. (case sqlite_date (created_str c) of
                                        None \<Rightarrow> False
                                      | Some date \<Rightarrow> text_le back_fmt date \<and> text_le date now_fmt)
                                   \<and> responded_at_str c \<noteq> None) (challenges_tbl db))
               | Some g \<Rightarrow>
                   Inr (filter (\<lambda>c. c_guild_id c = g
                                   \<and> (case sqlite_date (created_str c) of
                                        None \<Rightarrow> False
                                      | Some date \<Rightarrow> text_le back_fmt date \<and> text_le date now_fmt)
                                   \<and> responded_at_str c \<noteq> None) (challenges_tbl db)))))"

section \<open>The challenge cog (bot/challenge.py)\<close>

subsection \<open>Text: substring tests and the match type pattern\<close>

text \<open>\<^verbatim>\<open>s.startswith(p)\<close> and \<^verbatim>\<open>p in s\<close> on strings.\<close>

fun startswith :: "string \<Rightarrow> string \<Rightarrow> bool" where
  "startswith s [] = True"
| "startswith [] (p # ps) = False"
| "startswith (c # s) (p # ps) = (c = p \<and> startswith s ps)"

fun contains :: "string \<Rightarrow> string \<Rightarrow> bool" where
  "contains [] p = startswith [] p"
| "contains (c # s) p = (startswith (c # s) p \<or> contains s p)"

text \<open>\<^verbatim>\<open>sep.join(parts)\<close>.\<close>

fun join :: "string \<Rightarrow> string list \<Rightarrow> string" where
  "join sep [] = []"
| "join sep [x] = x"
| "join sep (x # y # ys) = x @ sep @ join sep (y # ys)"

text \<open>
  \<^verbatim>\<open>re.search(MATCH_TYPE_REGEX, content)\<close> with
  \<^verbatim>\<open>MATCH_TYPE_REGEX = re.compile(r'Type: .* (Solo Ultra|Solo)')\<close>, giving group 1 of
  the match or \<open>None\<close>. The search tries each start position from the left. At a start
  position the literal \<^verbatim>\<open>Type: \<close> must follow; the greedy \<^verbatim>\<open>.*\<close> first takes the
  rest of the line (it does not cross a newline) and gives characters back one at a time;
  after it the alternation takes \<^verbatim>\<open> Solo Ultra\<close> before \<^verbatim>\<open> Solo\<close>.
\<close>

definition alternation :: "string \<Rightarrow> string option" where
  "alternation t =
     (if startswith t '' Solo Ultra'' then Some ''Solo Ultra''
      else if startswith t '' Solo'' then Some ''Solo''
      else None)"

fun backtrack :: "nat \<Rightarrow> string \<Rightarrow> string option" where
  "backtrack 0 rest = alternation rest"
| "backtrack (Suc k) rest =
     (case alternation (drop (Suc k) rest) of
        Some g \<Rightarrow> Some g
      | None \<Rightarrow> backtrack k rest)"

definition match_at :: "string \<Rightarrow> string option" where
  "match_at s =
     (if startswith s ''Type: ''
      then (let rest = drop 6 s
            in backtrack (length (takeWhile (\<lambda>c. c \<noteq> CHR 0x0A) rest)) rest)
      else None)"

fun re_search :: "string \<Rightarrow> string option" where
  "re_search [] = match_at []"
| "re_search (c # s) =
     (case match_at (c # s) of
        Some g \<Rightarrow> Some g
      | None \<Rightarrow> re_search s)"

subsection \<open>The chat platform's objects\<close>

text \<open>What the cog reads of \<^verbatim>\<open>discord.Role\<close>, \<^verbatim>\<open>discord.Guild\<close>,
  \<^verbatim>\<open>discord.Member\<close> and \<^verbatim>\<open>discord.Message\<close>. \<open>msg_guild\<close> is the id of
  \<^verbatim>\<open>message.guild\<close>, absent in a direct message; \<open>reference\<close> is
  \<^verbatim>\<open>message.reference.message_id\<close>, absent when the message is no reply.\<close>

record Role =
  r_id :: int
  r_mention :: string

record Guild =
  g_id :: int
  g_roles :: "Role list"

record Member =
  member_id :: int
  member_mention :: string

record Message =
  msg_id :: int
  author :: Member
  content :: string
  channel_id :: int
  msg_guild :: "int option"
  reference :: "int option"

text \<open>\<^verbatim>\<open>discord.utils.get(iterable, id=i)\<close>: the first element with that id.\<close>

definition utils_get :: "('a \<Rightarrow> int) \<Rightarrow> 'a list \<Rightarrow> int \<Rightarrow> 'a option" where
  "utils_get ident xs i = find (\<lambda>x. ident x = i) xs"

text \<open>The events the cog dispatches on the bot, and what it does to the outside: a
  message sent to a channel, a reply to a message, an event dispatched.\<close>

datatype event =
    New_challenge Message string
  | Challenge_timeout Challenge Message
  | Challenge_accepted Challenge Message

datatype effect =
    Channel_send int string
  | Message_reply int string
  | Dispatch event

text \<open>
  The state a handler of \<^verbatim>\<open>ChallengeCog\<close> works on: the bot's own user id and the
  guilds it knows, the database at \<^verbatim>\<open>bot.db_path\<close>, the two caches
  \<^verbatim>\<open>self.challenges\<close> and \<^verbatim>\<open>self.match_roles\<close>, and the effects so far, oldest
  first. A handler returns \<open>Inr ()\<close> when it returns and \<open>Inl e\<close> when it raises, with
  the state as it leaves it.
\<close>

record ChallengeCog =
  bot_user :: int
  bot_guilds :: "Guild list"
  bot_db :: database
  challenges :: "int \<rightharpoonup> Challenge"
  match_roles :: "int \<rightharpoonup> MatchTypeRole list"
  effects :: "effect list"

definition is_match_request :: "Message \<Rightarrow> bool" where
  "is_match_request message = contains (lower (content message)) ''new match request received!''"

definition create_new_challenge ::
  "ChallengeCog \<Rightarrow> Message \<Rightarrow> string \<Rightarrow> timestamp \<Rightarrow> (error + unit) \<times> ChallengeCog" where
  "create_new_challenge cog message mt now =
     (case msg_guild message of
        None \<Rightarrow> (Inl AttributeError, cog)
      | Some guild_id \<Rightarrow>
          (case insert_challenge (bot_db cog) guild_id (channel_id message) (msg_id message) mt None now of
             (challenge, db') \<Rightarrow>
               (Inr (), cog\<lparr>bot_db := db',
                             challenges := (challenges cog)(message_id challenge \<mapsto> challenge)\<rparr>)))"

text \<open>\<^verbatim>\<open>answer_challenge\<close> opens a connection of its own; when the call raises, the
  connection is closed on the way out and an update that was not committed is rolled
  back, which is the case after \<^verbatim>\<open>OperationalError\<close> only.\<close>

definition answer_challenge ::
  "ChallengeCog \<Rightarrow> Challenge \<Rightarrow> Member \<Rightarrow> timestamp \<Rightarrow> (error + unit) \<times> ChallengeCog" where
  "answer_challenge cog challenge responding_member now =
     (case respond_to_challenge (bot_db cog) (message_id challenge) (member_id responding_member) now of
        (Inl e, db') \<Rightarrow>
          (Inl e, cog\<lparr>bot_db := (if e = OperationalError then bot_db cog else db')\<rparr>)
      | (Inr updated_challenge, db') \<Rightarrow>
          (Inr (), cog\<lparr>bot_db := db',
                        challenges := (challenges cog)(message_id updated_challenge \<mapsto>
                                                        updated_challenge)\<rparr>))"

definition get_guild_roles :: "ChallengeCog \<Rightarrow> Guild \<Rightarrow> string option \<Rightarrow> Role list" where
  "get_guild_roles cog guild mt =
     (let roles = (case match_roles cog (g_id guild) of None \<Rightarrow> [] | Some rs \<Rightarrow> rs);
          roles' = (case mt of
                      Some t \<Rightarrow> map (\<lambda>mr. utils_get r_id (g_roles guild) (role_id mr))
                                    (filter (\<lambda>mr. match_type mr = t) roles)
                    | None \<Rightarrow> map (\<lambda>mr. utils_get r_id (g_roles guild) (role_id mr)) roles)
      in List.map_filter (\<lambda>r. r) roles')"

text \<open>
  \<^verbatim>\<open>on_new_challenge\<close> suspends in \<^verbatim>\<open>sleep_until\<close> for \<^verbatim>\<open>TIME_OUT_MINUTES\<close>, and
  other handlers run on the cog meanwhile. \<open>on_new_challenge_arm\<close> is the handler up to
  the sleep, \<open>on_new_challenge_fire\<close> the handler from the sleep on, run on the state it
  finds then, and \<open>on_new_challenge\<close> the whole, with what happens to the cog during
  the sleep as the parameter \<open>during\<close>.

  In \<open>on_new_challenge_fire\<close>, a challenge missing from the cache leads to the call
  \<^verbatim>\<open>fetch_challenge(message.id)\<close>, which gives one argument to a function of the two
  parameters \<^verbatim>\<open>db\<close> and \<^verbatim>\<open>message_id\<close>: the call raises \<^verbatim>\<open>TypeError\<close>, and the
  lines after it never run.
\<close>

definition on_new_challenge_arm ::
  "ChallengeCog \<Rightarrow> Message \<Rightarrow> string \<Rightarrow> timestamp \<Rightarrow> (error + unit) \<times> ChallengeCog" where
  "on_new_challenge_arm cog message mt now =
     (case create_new_challenge cog message mt now of
        (Inl e, cog') \<Rightarrow> (Inl e, cog')
      | (Inr u, cog') \<Rightarrow>
          (Inr (), cog'\<lparr>effects := effects cog' @
             [Channel_send (channel_id message)
                ''This is a placeholder to show I received the message. Timeout is currently 1 minute'']\<rparr>))"

definition on_new_challenge_fire ::
  "ChallengeCog \<Rightarrow> Message \<Rightarrow> (error + unit) \<times> ChallengeCog" where
  "on_new_challenge_fire cog message =
     (case challenges cog (msg_id message) of
        None \<Rightarrow> (Inl TypeError, cog)
      | Some challenge \<Rightarrow>
          (if is_open challenge
           then (Inr (), cog\<lparr>effects := effects cog @
                                [Dispatch (Challenge_timeout challenge message)]\<rparr>)
           else (Inr (), cog)))"

definition on_new_challenge ::
  "ChallengeCog \<Rightarrow> Message \<Rightarrow> string \<Rightarrow> timestamp \<Rightarrow> (ChallengeCog \<Rightarrow> ChallengeCog)
     \<Rightarrow> (error + unit) \<times> ChallengeCog" where
  "on_new_challenge cog message mt now during =
     (case on_new_challenge_arm cog message mt now of
        (Inl e, cog') \<Rightarrow> (Inl e, cog')
      | (Inr u, cog') \<Rightarrow> on_new_challenge_fire (during cog') message)"

text \<open>\<^verbatim>\<open>on_challenge_timeout\<close>: \<^verbatim>\<open>del self.challenges[...]\<close> raises \<^verbatim>\<open>KeyError\<close> on a
  key that is not cached; the reply is sent only when the guild is found.\<close>

definition on_challenge_timeout ::
  "ChallengeCog \<Rightarrow> Challenge \<Rightarrow> Message \<Rightarrow> (error + unit) \<times> ChallengeCog" where
  "on_challenge_timeout cog challenge message =
     (case challenges cog (message_id challenge) of
        None \<Rightarrow> (Inl KeyError, cog)
      | Some cached \<Rightarrow>
          (let cog' = cog\<lparr>challenges := (challenges cog)(message_id challenge := None)\<rparr>
           in case utils_get g_id (bot_guilds cog') (c_guild_id challenge) of
                None \<Rightarrow> (Inr (), cog')
              | Some guild \<Rightarrow>
                  (let roles = get_guild_roles cog' guild (Some (challenge_type challenge));
                       role_mentions = join '' '' (map r_mention roles)
                   in (Inr (), cog'\<lparr>effects := effects cog' @
                          [Message_reply (msg_id message)
                             (role_mentions @ '' This order is still up!'')]\<rparr>))))"

definition on_challenge_accepted ::
  "ChallengeCog \<Rightarrow> Challenge \<Rightarrow> Message \<Rightarrow> timestamp \<Rightarrow> (error + unit) \<times> ChallengeCog" where
  "on_challenge_accepted cog challenge message now =
     (case answer_challenge cog challenge (author message) now of
        (Inl e, cog') \<Rightarrow> (Inl e, cog')
      | (Inr u, cog') \<Rightarrow>
          (Inr (), cog'\<lparr>effects := effects cog' @
             [Channel_send (channel_id message)
                (''I see you! '' @ member_mention (author message))]\<rparr>))"

text \<open>\<^verbatim>\<open>on_message\<close>: \<^verbatim>\<open>match_type[1]\<close> subscripts the result of the search, which
  raises \<^verbatim>\<open>TypeError\<close> when the search found nothing.\<close>

definition on_message :: "ChallengeCog \<Rightarrow> Message \<Rightarrow> (error + unit) \<times> ChallengeCog" where
  "on_message cog message =
     (if member_id (author message) = bot_user cog then (Inr (), cog)
      else if is_match_request message then
        (case re_search (content message) of
           None \<Rightarrow> (Inl TypeError, cog)
         | Some group1 \<Rightarrow>
             (Inr (), cog\<lparr>effects := effects cog @ [Dispatch (New_challenge message group1)]\<rparr>))
      else
        (let challenge = (case reference message of
                            None \<Rightarrow> None
                          | Some ref_id \<Rightarrow> challenges cog ref_id)
         in case challenge of
              None \<Rightarrow> (Inr (), cog)
            | Some c \<Rightarrow>
                (if contains (lower (content message)) ''accept''
                 then (Inr (), cog\<lparr>effects := effects cog @
                                      [Dispatch (Challenge_accepted c message)]\<rparr>)
                 else (Inr (), cog))))"

section \<open>Properties of the repository operations\<close>

subsection \<open>Answering a challenge\<close>

lemma find_None_map_id:
  "find P xs = None \<Longrightarrow> map (\<lambda>c. if P c then f c else c) xs = xs"
  by (induction xs) (auto split: if_splits)

lemma find_map_upd:
  assumes "\<And>c. P (f c) = P c"
  shows "find P (map (\<lambda>c. if P c then f c else c) xs) = map_option f (find P xs)"
  using assms by (induction xs) auto

lemma set_map_upd:
  assumes "x \<in> set (map (\<lambda>c. if P c then f c else c) xs)" and "P x" and "\<And>c. Q (f c)"
  shows "Q x"
  using assms by (induction xs) (auto split: if_splits)

lemma filter_map_upd:
  assumes "\<And>c. P (f c) = P c"
  shows "filter P (map (\<lambda>c. if P c then f c else c) xs) = map f (filter P xs)"
  using assms by (induction xs) auto

lemma filter_single_find: "filter P xs = [c] \<Longrightarrow> find P xs = Some c"
  by (induction xs) (auto split: if_splits simp add: filter_empty_conv find_None_iff)

lemma find_None_filter: "find P xs = None \<Longrightarrow> filter P xs = []"
  by (simp add: find_None_iff filter_empty_conv)

lemma respond_no_row:
  "find (\<lambda>c. message_id c = mid) (challenges_tbl db) = None \<Longrightarrow>
   respond_to_challenge db mid m now = (Inl TypeError, db)"
  by (simp add: respond_to_challenge_def find_None_map_id find_None_filter Let_def)

lemma respond_open:
  assumes "filter (\<lambda>c. message_id c = mid) (challenges_tbl db) = [c]"
      and "responding_member_id c = None"
  shows "respond_to_challenge db mid m now =
     (Inr (c\<lparr>responded_at_str := Some now, responding_member_id := Some m\<rparr>),
      db\<lparr>challenges_tbl := map (\<lambda>c. if message_id c = mid
                               then c\<lparr>responded_at_str := Some now,
                                      responding_member_id := Some m\<rparr>
                               else c) (challenges_tbl db)\<rparr>)"
  using assms filter_single_find [OF assms(1)]
  by (simp add: respond_to_challenge_def filter_map_upd Let_def)

lemma respond_closed:
  assumes "find (\<lambda>c. message_id c = mid) (challenges_tbl db) = Some c"
      and "responding_member_id c = Some k"
  shows "respond_to_challenge db mid m now = (Inl ChallengeResponded, db)"
  using assms by (simp add: respond_to_challenge_def Let_def)

text \<open>
  Claim C1. Let a message id have one stored challenge (message ids are unique in the
  data model), and let it be open. Then \<open>respond_to_challenge\<close> called twice on that
  message id, by members \<open>m1\<close> and then \<open>m2\<close>, succeeds the first time, returning
  the row with \<open>m1\<close> and the time of the call recorded, and raises
  \<open>ChallengeResponded\<close> the second time; the second call leaves the database as the
  first left it, the stored row is the one the first call returned, and it names \<open>m1\<close>
  as its respondent.
\<close>

theorem respond_to_challenge_twice:
  assumes "filter (\<lambda>c. message_id c = mid) (challenges_tbl db) = [c]"
      and "responding_member_id c = None"
  shows "\<exists>db1. respond_to_challenge db mid m1 t1 =
                 (Inr (c\<lparr>responded_at_str := Some t1, responding_member_id := Some m1\<rparr>), db1)
             \<and> respond_to_challenge db1 mid m2 t2 = (Inl ChallengeResponded, db1)
             \<and> fetch_challenge db1 mid =
                 Some (c\<lparr>responded_at_str := Some t1, responding_member_id := Some m1\<rparr>)
             \<and> (\<forall>c' \<in> set (challenges_tbl db1).
                   message_id c' = mid \<longrightarrow> responding_member_id c' = Some m1)"
proof -
  let ?upd = "\<lambda>c. c\<lparr>responded_at_str := Some t1, responding_member_id := Some m1\<rparr>"
  let ?rows = "map (\<lambda>c. if message_id c = mid then ?upd c else c) (challenges_tbl db)"
  let ?db1 = "db\<lparr>challenges_tbl := ?rows\<rparr>"
  from assms(1) have first: "find (\<lambda>c. message_id c = mid) (challenges_tbl db) = Some c"
    by (rule filter_single_find)
  have r1: "respond_to_challenge db mid m1 t1 = (Inr (?upd c), ?db1)"
    using respond_open [OF assms] .
  have f1: "find (\<lambda>c. message_id c = mid) (challenges_tbl ?db1) = Some (?upd c)"
    using first by (simp add: find_map_upd)
  have r2: "respond_to_challenge ?db1 mid m2 t2 = (Inl ChallengeResponded, ?db1)"
    by (rule respond_closed [OF f1]) simp
  have all: "\<forall>c' \<in> set (challenges_tbl ?db1).
               message_id c' = mid \<longrightarrow> responding_member_id c' = Some m1"
  proof (intro ballI impI)
    fix c' assume "c' \<in> set (challenges_tbl ?db1)" and m: "message_id c' = mid"
    then have "c' \<in> set ?rows" by simp
    from this m show "responding_member_id c' = Some m1"
      by (rule set_map_upd) simp
  qed
  have f1': "fetch_challenge ?db1 mid = Some (?upd c)"
    using f1 by (simp only: fetch_challenge_def)
  show ?thesis
    by (rule exI [of _ ?db1]) (intro conjI r1 r2 f1' all)
qed

theorem respond_to_challenge_twice_witness:
  "(let c = \<lparr>c_id = 1, created_str = 50, c_guild_id = 123456, text_channel_id = 123456,
             message_id = 123456, challenge_type = ''solo'', responding_member_id = None,
             responded_at_str = None\<rparr>;
        db = \<lparr>challenges_tbl = [c], match_type_roles_tbl = []\<rparr>;
        c1 = c\<lparr>responded_at_str := Some 60, responding_member_id := Some 789011\<rparr>;
        db1 = \<lparr>challenges_tbl = [c1], match_type_roles_tbl = []\<rparr>
    in filter (\<lambda>c. message_id c = 123456) (challenges_tbl db) = [c]
       \<and> responding_member_id c = None
       \<and> respond_to_challenge db 123456 789011 60 = (Inr c1, db1)
       \<and> respond_to_challenge db1 123456 111111 70 = (Inl ChallengeResponded, db1)
       \<and> fetch_challenge db1 123456 = Some c1)"
  using respond_to_challenge_twice
    [of 123456 "\<lparr>challenges_tbl = [\<lparr>c_id = 1, created_str = 50, c_guild_id = 123456,
            text_channel_id = 123456, message_id = 123456, challenge_type = ''solo'',
            responding_member_id = None, responded_at_str = None\<rparr>],
          match_type_roles_tbl = []\<rparr>" _ 789011 60 111111 70]
  by (simp add: fetch_challenge_def respond_to_challenge_def Let_def)

text \<open>
  Claim C2 asks that \<open>respond_to_challenge\<close> fail with a not-found error, and leave
  the storage unchanged, when no row has the message id. The function does not test the
  row the update returns, as \<open>fetch_challenge\<close> does with its row: the update matches
  no row, and building the result from the missing row raises the built-in
  \<open>TypeError\<close>. The database below holds a challenge of another message; the call
  changes nothing in it.
\<close>

theorem respond_to_challenge_missing_raises:
  "(let db = \<lparr>challenges_tbl = [\<lparr>c_id = 1, created_str = 50, c_guild_id = 3434,
                 text_channel_id = 3434, message_id = 324324, challenge_type = ''solo'',
                 responding_member_id = None, responded_at_str = None\<rparr>],
               match_type_roles_tbl = []\<rparr>
    in fetch_challenge db 123456 = None
     \<and> respond_to_challenge db 123456 789011 60 = (Inl TypeError, db))"
  by (simp add: fetch_challenge_def respond_to_challenge_def Let_def)

subsection \<open>Inserting and reading back\<close>

lemma find_append_None:
  "find P xs = None \<Longrightarrow> find P (xs @ [x]) = (if P x then Some x else None)"
  by (induction xs) (auto split: if_splits)

lemma lower_Solo: "lower ''Solo'' = ''solo''"
  by code_simp

lemma lower_solo: "lower ''solo'' = ''solo''"
  by code_simp

text \<open>
  Claim C9. When no row of the message id is stored yet (message ids are unique in the
  data model), \<open>insert_challenge\<close> followed by \<open>fetch_challenge\<close> on the same
  message id returns the very record the insert returned, surrogate id included; its
  guild, channel and message ids are the arguments, its type is the argument in lower
  case, its creation time is the one given or else the clock's, and it has no response.
\<close>

theorem insert_challenge_fetch_challenge:
  assumes "fetch_challenge db mid = None"
  shows "\<exists>c db'. insert_challenge db g ch mid ty created_at now = (c, db')
           \<and> fetch_challenge db' mid = Some c
           \<and> c_guild_id c = g \<and> text_channel_id c = ch \<and> message_id c = mid
           \<and> challenge_type c = lower ty
           \<and> created_str c = (case created_at of Some t \<Rightarrow> t | None \<Rightarrow> now)
           \<and> responding_member_id c = None \<and> responded_at_str c = None"
  using assms
  by (simp add: insert_challenge_def fetch_challenge_def Let_def find_append_None)

theorem insert_challenge_fetch_challenge_witness:
  "(let db = \<lparr>challenges_tbl = [], match_type_roles_tbl = []\<rparr>;
        c = \<lparr>c_id = 1, created_str = 60, c_guild_id = 123456, text_channel_id = 4632324,
             message_id = 346346346, challenge_type = ''solo'', responding_member_id = None,
             responded_at_str = None\<rparr>
    in fetch_challenge db 346346346 = None
     \<and> insert_challenge db 123456 4632324 346346346 ''Solo'' None 60
         = (c, \<lparr>challenges_tbl = [c], match_type_roles_tbl = []\<rparr>)
     \<and> fetch_challenge \<lparr>challenges_tbl = [c], match_type_roles_tbl = []\<rparr> 346346346 = Some c)"
  using insert_challenge_fetch_challenge
    [of "\<lparr>challenges_tbl = [], match_type_roles_tbl = []\<rparr>" 346346346 123456 4632324 "''Solo''" None 60]
  by (simp add: insert_challenge_def fetch_challenge_def Let_def next_id_def lower_Solo)

subsection \<open>Role mappings\<close>

lemma unique_violation_append:
  "unique_violation (rows @ [m]) g mt r =
     (unique_violation rows g mt r \<or> (mr_guild_id m = g \<and> match_type m = mt \<and> role_id m = r))"
  by (auto simp add: unique_violation_def list_ex_iff)

lemma unique_violation_filter:
  "unique_violation (filter P rows) g mt r \<Longrightarrow> unique_violation rows g mt r"
  by (auto simp add: unique_violation_def list_ex_iff)

lemma create_fresh:
  "\<not> unique_violation (match_type_roles_tbl db) g mt r \<Longrightarrow>
   create_match_type_role db g mt r =
     (Inr \<lparr>mr_id = next_id (map mr_id (match_type_roles_tbl db)),
            mr_guild_id = g, match_type = mt, role_id = r\<rparr>,
      db\<lparr>match_type_roles_tbl := match_type_roles_tbl db @
           [\<lparr>mr_id = next_id (map mr_id (match_type_roles_tbl db)),
             mr_guild_id = g, match_type = mt, role_id = r\<rparr>]\<rparr>)"
  by (simp add: create_match_type_role_def Let_def)

lemma create_existing:
  "unique_violation (match_type_roles_tbl db) g mt r \<Longrightarrow>
   create_match_type_role db g mt r = (Inl RoleExists, db)"
  by (simp add: create_match_type_role_def)

lemma delete_twice:
  "delete_match_type_role (delete_match_type_role db i) i = delete_match_type_role db i"
  by (simp add: delete_match_type_role_def)

lemma delete_absent:
  "\<not> list_ex (\<lambda>m. mr_id m = i) (match_type_roles_tbl db) \<Longrightarrow> delete_match_type_role db i = db"
  by (simp add: delete_match_type_role_def list_ex_iff filter_id_conv)

text \<open>
  Claim C8. For a triple (guild, match type, role) that is not yet stored,
  \<open>create_match_type_role\<close> succeeds and stores the triple; creating it again raises
  \<open>RoleExists\<close> and leaves the database as it was; after
  \<open>delete_match_type_role\<close> of the created row's id the triple can be created again.
  Deleting never fails: deleting an id a second time changes nothing, and deleting an id
  that no row has leaves any database as it is.
\<close>

theorem create_match_type_role_twice:
  assumes "\<not> unique_violation (match_type_roles_tbl db) g mt r"
  shows "\<exists>row db1.
           create_match_type_role db g mt r = (Inr row, db1)
         \<and> mr_guild_id row = g \<and> match_type row = mt \<and> role_id row = r
         \<and> create_match_type_role db1 g mt r = (Inl RoleExists, db1)
         \<and> (\<exists>row'. fst (create_match_type_role (delete_match_type_role db1 (mr_id row)) g mt r)
                     = Inr row')
         \<and> delete_match_type_role (delete_match_type_role db1 (mr_id row)) (mr_id row)
             = delete_match_type_role db1 (mr_id row)
         \<and> delete_match_type_role (delete_match_type_role db' i) i = delete_match_type_role db' i
         \<and> (list_ex (\<lambda>m. mr_id m = i) (match_type_roles_tbl db') \<or> delete_match_type_role db' i = db')"
proof -
  let ?row = "\<lparr>mr_id = next_id (map mr_id (match_type_roles_tbl db)),
            mr_guild_id = g, match_type = mt, role_id = r\<rparr>"
  let ?db1 = "db\<lparr>match_type_roles_tbl := match_type_roles_tbl db @ [?row]\<rparr>"
  have first: "create_match_type_role db g mt r = (Inr ?row, ?db1)"
    using assms by (rule create_fresh)
  have second: "create_match_type_role ?db1 g mt r = (Inl RoleExists, ?db1)"
    by (rule create_existing) (simp add: unique_violation_append)
  have "match_type_roles_tbl (delete_match_type_role ?db1 (mr_id ?row))
          = filter (\<lambda>m. mr_id m \<noteq> mr_id ?row) (match_type_roles_tbl db)"
    by (simp add: delete_match_type_role_def)
  with assms have "\<not> unique_violation
          (match_type_roles_tbl (delete_match_type_role ?db1 (mr_id ?row))) g mt r"
    using unique_violation_filter by metis
  then have third: "\<exists>row'. fst (create_match_type_role (delete_match_type_role ?db1 (mr_id ?row)) g mt r)
                     = Inr row'"
    by (simp add: create_fresh)
  have fields: "mr_guild_id ?row = g \<and> match_type ?row = mt \<and> role_id ?row = r"
    by simp
  have absent: "list_ex (\<lambda>m. mr_id m = i) (match_type_roles_tbl db') \<or> delete_match_type_role db' i = db'"
    using delete_absent by blast
  show ?thesis
    apply (rule exI [of _ ?row])
    apply (rule exI [of _ ?db1])
    apply (intro conjI first second third delete_twice absent)
    apply (simp_all only: fields)
    done
qed

theorem create_match_type_role_twice_witness:
  "(let db0 = \<lparr>challenges_tbl = [], match_type_roles_tbl = []\<rparr>;
        row = \<lparr>mr_id = 1, mr_guild_id = 1234, match_type = ''solo'', role_id = 5678\<rparr>;
        db1 = \<lparr>challenges_tbl = [], match_type_roles_tbl = [row]\<rparr>
    in \<not> unique_violation (match_type_roles_tbl db0) 1234 ''solo'' 5678
     \<and> create_match_type_role db0 1234 ''solo'' 5678 = (Inr row, db1)
     \<and> create_match_type_role db1 1234 ''solo'' 5678 = (Inl RoleExists, db1)
     \<and> delete_match_type_role db1 1 = db0
     \<and> delete_match_type_role db0 1 = db0
     \<and> create_match_type_role (delete_match_type_role db1 1) 1234 ''solo'' 5678 = (Inr row, db1))"
  using create_match_type_role_twice
    [of "\<lparr>challenges_tbl = [], match_type_roles_tbl = []\<rparr>" 1234 "''solo''" 5678
        "\<lparr>challenges_tbl = [], match_type_roles_tbl = []\<rparr>" 1]
  by (simp add: create_match_type_role_def delete_match_type_role_def unique_violation_def
        next_id_def Let_def)

text \<open>
  Claim C10. \<open>create_match_type_role\<close> stores the match type as given. Two match types
  that differ only in the case of their letters are different triples with the same
  guild and role: when neither is stored, both creations succeed, each row keeps its own
  spelling, and both rows are in the table afterwards. \<open>insert_challenge\<close> on the
  other hand lower-cases: it stores the same challenge type for both spellings.
\<close>

theorem create_match_type_role_case_sensitive:
  assumes "mt1 \<noteq> mt2" and "lower mt1 = lower mt2"
      and "\<not> unique_violation (match_type_roles_tbl db) g mt1 r"
      and "\<not> unique_violation (match_type_roles_tbl db) g mt2 r"
  shows "\<exists>row1 db1 row2 db2.
           create_match_type_role db g mt1 r = (Inr row1, db1) \<and> match_type row1 = mt1
         \<and> create_match_type_role db1 g mt2 r = (Inr row2, db2) \<and> match_type row2 = mt2
         \<and> match_type_roles_tbl db2 = match_type_roles_tbl db @ [row1, row2]
         \<and> challenge_type (fst (insert_challenge db g ch m mt1 created_at now))
             = challenge_type (fst (insert_challenge db g ch m mt2 created_at now))"
proof -
  let ?row1 = "\<lparr>mr_id = next_id (map mr_id (match_type_roles_tbl db)),
            mr_guild_id = g, match_type = mt1, role_id = r\<rparr>"
  let ?db1 = "db\<lparr>match_type_roles_tbl := match_type_roles_tbl db @ [?row1]\<rparr>"
  let ?row2 = "\<lparr>mr_id = next_id (map mr_id (match_type_roles_tbl ?db1)),
            mr_guild_id = g, match_type = mt2, role_id = r\<rparr>"
  let ?db2 = "?db1\<lparr>match_type_roles_tbl := match_type_roles_tbl ?db1 @ [?row2]\<rparr>"
  have first: "create_match_type_role db g mt1 r = (Inr ?row1, ?db1)"
    using assms(3) by (rule create_fresh)
  have "\<not> unique_violation (match_type_roles_tbl ?db1) g mt2 r"
    using assms(1,4) by (simp add: unique_violation_append)
  then have second: "create_match_type_role ?db1 g mt2 r = (Inr ?row2, ?db2)"
    by (rule create_fresh)
  have tbl: "match_type_roles_tbl ?db2 = match_type_roles_tbl db @ [?row1, ?row2]"
    by simp
  have types: "challenge_type (fst (insert_challenge db g ch m mt1 created_at now))
             = challenge_type (fst (insert_challenge db g ch m mt2 created_at now))"
    using assms(2) by (simp add: insert_challenge_def Let_def)
  have m1: "match_type ?row1 = mt1" and m2: "match_type ?row2 = mt2"
    by simp_all
  show ?thesis
    apply (rule exI [of _ ?row1])
    apply (rule exI [of _ ?db1])
    apply (rule exI [of _ ?row2])
    apply (rule exI [of _ ?db2])
    apply (intro conjI first second tbl types m1 m2)
    done
qed

theorem create_match_type_role_case_sensitive_witness:
  "(let db0 = \<lparr>challenges_tbl = [], match_type_roles_tbl = []\<rparr>;
        row1 = \<lparr>mr_id = 1, mr_guild_id = 1234, match_type = ''Solo'', role_id = 5678\<rparr>;
        row2 = \<lparr>mr_id = 2, mr_guild_id = 1234, match_type = ''solo'', role_id = 5678\<rparr>;
        db1 = \<lparr>challenges_tbl = [], match_type_roles_tbl = [row1]\<rparr>;
        db2 = \<lparr>challenges_tbl = [], match_type_roles_tbl = [row1, row2]\<rparr>
    in ''Solo'' \<noteq> ''solo'' \<and> lower ''Solo'' = lower ''solo''
     \<and> \<not> unique_violation (match_type_roles_tbl db0) 1234 ''Solo'' 5678
     \<and> \<not> unique_violation (match_type_roles_tbl db0) 1234 ''solo'' 5678
     \<and> create_match_type_role db0 1234 ''Solo'' 5678 = (Inr row1, db1)
     \<and> create_match_type_role db1 1234 ''solo'' 5678 = (Inr row2, db2)
     \<and> challenge_type (fst (insert_challenge db0 1234 1 2 ''Solo'' None 60)) = ''solo''
     \<and> challenge_type (fst (insert_challenge db0 1234 1 2 ''solo'' None 60)) = ''solo'')"
  using create_match_type_role_case_sensitive
    [of "''Solo''" "''solo''" "\<lparr>challenges_tbl = [], match_type_roles_tbl = []\<rparr>" 1234 5678
        1 2 None 60]
  by (simp add: create_match_type_role_def unique_violation_def insert_challenge_def
        next_id_def Let_def lower_Solo lower_solo)

subsection \<open>The history query\<close>

declare year_from.simps [simp del] month_from.simps [simp del] str_nat.simps [simp del]

paragraph \<open>The calendar: a date is later exactly when its day number is\<close>

lemma div_step:
  fixes y k :: int
  assumes "0 < k"
  shows "y div k = (y - 1) div k + (if y mod k = 0 then 1 else 0)"
proof -
  define q r where "q = y div k" and "r = y mod k"
  have y: "y = k * q + r"
    unfolding q_def r_def by simp
  have r: "0 \<le> r" "r < k"
    unfolding r_def using assms by simp_all
  show ?thesis
  proof (cases "r = 0")
    case True
    have "y - 1 = k * (q - 1) + (k - 1)"
      unfolding y True by (simp add: algebra_simps)
    then have "(y - 1) div k = q - 1"
      by (rule int_div_pos_eq) (use assms in simp_all)
    with True show ?thesis
      unfolding q_def r_def by simp
  next
    case False
    have "y - 1 = k * q + (r - 1)"
      unfolding y by simp
    then have "(y - 1) div k = q"
      by (rule int_div_pos_eq) (use r False in simp_all)
    with False show ?thesis
      unfolding q_def r_def by simp
  qed
qed

lemma mod_400_100: "(y::int) mod 400 = 0 \<Longrightarrow> y mod 100 = 0"
  by auto

lemma mod_100_4: "(y::int) mod 100 = 0 \<Longrightarrow> y mod 4 = 0"
  by auto

lemma leap_indicator:
  "(if y mod 4 = 0 then 1 else 0) - (if y mod 100 = 0 then 1 else 0)
     + (if y mod 400 = 0 then 1 else 0) = (if is_leap y then 1 else (0::int))"
proof (cases "y mod 4 = 0")
  case False
  with mod_100_4 [of y] mod_400_100 [of y] show ?thesis
    by (auto simp add: is_leap_def)
next
  case True
  show ?thesis
  proof (cases "y mod 100 = 0")
    case False
    with True mod_400_100 [of y] show ?thesis
      by (auto simp add: is_leap_def)
  next
    case c100: True
    with True show ?thesis
      by (cases "y mod 400 = 0") (simp_all add: is_leap_def)
  qed
qed

lemma days_before_year_step:
  "days_before_year (y + 1) = days_before_year y + days_in_year y"
proof -
  define a4 a100 a400 b4 b100 b400 i4 i100 i400 l
    where "a4 = y div 4" and "a100 = y div 100" and "a400 = y div 400"
      and "b4 = (y - 1) div 4" and "b100 = (y - 1) div 100" and "b400 = (y - 1) div 400"
      and "i4 = (if y mod 4 = 0 then 1 else (0::int))"
      and "i100 = (if y mod 100 = 0 then 1 else (0::int))"
      and "i400 = (if y mod 400 = 0 then 1 else (0::int))"
      and "l = (if is_leap y then 1 else (0::int))"
  have d4: "a4 = b4 + i4"
    unfolding a4_def b4_def i4_def by (rule div_step) simp
  have d100: "a100 = b100 + i100"
    unfolding a100_def b100_def i100_def by (rule div_step) simp
  have d400: "a400 = b400 + i400"
    unfolding a400_def b400_def i400_def by (rule div_step) simp
  have ind: "i4 - i100 + i400 = l"
    unfolding i4_def i100_def i400_def l_def by (rule leap_indicator)
  have lhs: "days_before_year (y + 1) = 365 * y + a4 - a100 + a400"
    by (simp add: days_before_year_def a4_def a100_def a400_def)
  have rhs1: "days_before_year y = 365 * (y - 1) + b4 - b100 + b400"
    by (simp add: days_before_year_def b4_def b100_def b400_def)
  have rhs2: "days_in_year y = 365 + l"
    by (simp add: days_in_year_def l_def)
  show ?thesis
    unfolding lhs rhs1 rhs2 d4 d100 d400 using ind by simp
qed

lemma days_in_year_pos: "365 \<le> days_in_year y"
  by (simp add: days_in_year_def)

lemma days_before_year_mono:
  assumes "y \<le> y'"
  shows "days_before_year y \<le> days_before_year y'"
  using assms
proof (induction y' rule: int_ge_induct)
  case base
  show ?case by simp
next
  case (step i)
  have "days_before_year (i + 1) = days_before_year i + days_in_year i"
    by (rule days_before_year_step)
  with step days_in_year_pos [of i] show ?case by linarith
qed

lemma year_from_spec:
  assumes "0 \<le> r" and "year_from y r = (y', r')"
  shows "days_before_year y' + r' = days_before_year y + r \<and> 0 \<le> r' \<and> r' < days_in_year y'"
  using assms
proof (induction y r rule: year_from.induct)
  case (1 y r)
  show ?case
  proof (cases "r < days_in_year y")
    case True
    with "1.prems" show ?thesis
      by (simp add: year_from.simps [of y r])
  next
    case False
    with "1.prems" have rec: "year_from (y + 1) (r - days_in_year y) = (y', r')"
      by (simp add: year_from.simps [of y r])
    from False have "0 \<le> r - days_in_year y" by simp
    from "1.IH" [OF False this rec] show ?thesis
      by (simp add: days_before_year_step)
  qed
qed

lemma days_before_year_era: "days_before_year (400 * e + 1) = 146097 * e"
  by (simp add: days_before_year_def)

lemma days_before_month_1: "days_before_month y 1 = 0"
  by (simp add: days_before_month_def)

lemma days_before_month_step:
  assumes "1 \<le> m"
  shows "days_before_month y (m + 1) = days_before_month y m + days_in_month y m"
proof -
  have "[1..m] = [1..m - 1] @ [m]"
    using assms by (simp add: upto_rec2)
  then show ?thesis
    by (simp add: days_before_month_def)
qed

lemma days_in_month_pos: "28 \<le> days_in_month y m"
  by (simp add: days_in_month_def)

lemma days_before_month_mono:
  assumes "1 \<le> m" and "m \<le> m'"
  shows "days_before_month y m \<le> days_before_month y m'"
  using assms(2,1)
proof (induction m' rule: int_ge_induct)
  case base
  show ?case by simp
next
  case (step i)
  then have "1 \<le> i" by simp
  from days_before_month_step [OF this, of y] step days_in_month_pos [of y i]
  show ?case by linarith
qed

lemma days_before_month_13: "days_before_month y 13 = days_in_year y"
  by (simp add: days_before_month_def days_in_month_def days_in_year_def upto_rec1)

lemma month_from_spec:
  assumes "0 \<le> r" and "1 \<le> m" and "month_from y m r = (m', d)"
  shows "days_before_month y m' + d - 1 = days_before_month y m + r
         \<and> 1 \<le> d \<and> d \<le> days_in_month y m' \<and> m \<le> m'"
  using assms
proof (induction y m r rule: month_from.induct)
  case (1 y m r)
  show ?case
  proof (cases "r < days_in_month y m")
    case True
    with "1.prems" show ?thesis
      by (auto simp add: month_from.simps [of y m r])
  next
    case False
    with "1.prems" have rec: "month_from y (m + 1) (r - days_in_month y m) = (m', d)"
      by (simp add: month_from.simps [of y m r])
    from False have r: "0 \<le> r - days_in_month y m" by simp
    from "1.prems" have m: "1 \<le> m + 1" by simp
    from "1.IH" [OF False r m rec] days_before_month_step [OF "1.prems"(2), of y]
    show ?thesis by simp
  qed
qed

lemma civil_from_days_spec:
  assumes "civil_from_days dn = (y, m, d)"
  shows "days_before_year y + days_before_month y m + d - 1 = dn + 719162
         \<and> 1 \<le> m \<and> m \<le> 12 \<and> 1 \<le> d \<and> d \<le> days_in_month y m"
proof -
  define n e where "n = dn + 719162" and "e = n div 146097"
  obtain y0 doy where yf: "year_from (400 * e + 1) (n - 146097 * e) = (y0, doy)"
    by (cases "year_from (400 * e + 1) (n - 146097 * e)")
  obtain m0 d0 where mf: "month_from y0 1 doy = (m0, d0)"
    by (cases "month_from y0 1 doy")
  from assms yf mf have eq: "y0 = y" "m0 = m" "d0 = d"
    by (simp_all add: civil_from_days_def Let_def n_def e_def)
  have "n - 146097 * e = n mod 146097"
    unfolding e_def by (simp add: minus_mult_div_eq_mod)
  then have r: "0 \<le> n - 146097 * e"
    by simp
  from year_from_spec [OF r yf]
  have ys: "days_before_year y0 + doy = n" "0 \<le> doy" "doy < days_in_year y0"
    by (simp_all add: days_before_year_era)
  from month_from_spec [OF ys(2) _ mf]
  have ms: "days_before_month y0 m0 + d0 - 1 = doy" "1 \<le> d0" "d0 \<le> days_in_month y0 m0" "1 \<le> m0"
    by (simp_all add: days_before_month_1)
  have "m0 \<le> 12"
  proof (rule ccontr)
    assume "\<not> m0 \<le> 12"
    then have "13 \<le> m0" by simp
    then have "days_before_month y0 13 \<le> days_before_month y0 m0"
      by (intro days_before_month_mono) simp_all
    with ms(1,2) ys(3) show False
      by (simp add: days_before_month_13)
  qed
  with ys ms show ?thesis
    unfolding eq n_def by simp
qed

lemma days_before_month_nonneg: "1 \<le> m \<Longrightarrow> 0 \<le> days_before_month y m"
  using days_before_month_mono [of 1 m y] by (simp add: days_before_month_1)

lemma month_end_le_year:
  assumes "1 \<le> m" and "m \<le> 12"
  shows "days_before_month y m + days_in_month y m \<le> days_in_year y"
proof -
  have "days_before_month y (m + 1) \<le> days_before_month y 13"
    using assms by (intro days_before_month_mono) simp_all
  then show ?thesis
    using days_before_month_step [OF assms(1), of y] by (simp add: days_before_month_13)
qed

lemma ordinal_less:
  assumes a: "1 \<le> m" "m \<le> 12" "1 \<le> d" "d \<le> days_in_month y m"
      and b: "1 \<le> m'" "m' \<le> 12" "1 \<le> d'" "d' \<le> days_in_month y' m'"
      and less: "y < y' \<or> (y = y' \<and> (m < m' \<or> (m = m' \<and> d < d')))"
  shows "days_before_year y + days_before_month y m + d
         < days_before_year y' + days_before_month y' m' + d'"
proof -
  consider "y < y'" | "y = y'" "m < m'" | "y = y'" "m = m'" "d < d'"
    using less by blast
  then show ?thesis
  proof cases
    case 1
    then have "days_before_year (y + 1) \<le> days_before_year y'"
      by (intro days_before_year_mono) simp
    then have "days_before_year y + days_in_year y \<le> days_before_year y'"
      by (simp add: days_before_year_step)
    moreover have "days_before_month y m + d \<le> days_in_year y"
      using month_end_le_year [OF a(1,2), of y] a(4) by simp
    moreover have "0 \<le> days_before_month y' m'"
      using b(1) by (rule days_before_month_nonneg)
    ultimately show ?thesis
      using b(3) by linarith
  next
    case 2
    then have "days_before_month y (m + 1) \<le> days_before_month y m'"
      using a(1) by (intro days_before_month_mono) simp_all
    then have "days_before_month y m + days_in_month y m \<le> days_before_month y m'"
      using days_before_month_step [OF a(1), of y] by simp
    with 2 a(4) b(3) show ?thesis
      by simp
  next
    case 3
    then show ?thesis by simp
  qed
qed

lemma civil_from_days_less:
  assumes "a < b"
  shows "date_le (civil_from_days a) (civil_from_days b)
         \<and> \<not> date_le (civil_from_days b) (civil_from_days a)"
proof -
  obtain y m d where A: "civil_from_days a = (y, m, d)"
    by (cases "civil_from_days a")
  obtain y' m' d' where B: "civil_from_days b = (y', m', d')"
    by (cases "civil_from_days b")
  note sa = civil_from_days_spec [OF A] and sb = civil_from_days_spec [OF B]
  have "y < y' \<or> (y = y' \<and> (m < m' \<or> (m = m' \<and> d < d')))"
  proof (rule ccontr)
    assume "\<not> ?thesis"
    then consider "y' < y \<or> (y' = y \<and> (m' < m \<or> (m' = m \<and> d' < d)))"
      | "y = y' \<and> m = m' \<and> d = d'"
      by fastforce
    then show False
    proof cases
      case 1
      from ordinal_less [OF _ _ _ _ _ _ _ _ this] sa sb assms show False
        by simp
    next
      case 2
      with sa sb assms show False by simp
    qed
  qed
  then show ?thesis
    unfolding A B date_le_def by auto
qed

lemma date_le_civil_iff:
  "date_le (civil_from_days a) (civil_from_days b) \<longleftrightarrow> a \<le> b"
proof (cases a b rule: linorder_cases)
  case less
  with civil_from_days_less [OF less] show ?thesis by simp
next
  case equal
  obtain y m d where "civil_from_days a = (y, m, d)"
    by (cases "civil_from_days a")
  with equal show ?thesis
    by (simp add: date_le_def)
next
  case greater
  with civil_from_days_less [OF greater] show ?thesis by simp
qed

paragraph \<open>Date texts: their order is the order of the dates\<close>

lemma of_char_digit: "n < 10 \<Longrightarrow> (of_char (digit_char n) :: nat) = 48 + n"
  by (simp add: digit_char_def)

lemma digit_char_eq_iff:
  assumes "a < 10" and "b < 10"
  shows "digit_char a = digit_char b \<longleftrightarrow> a = b"
proof
  assume "digit_char a = digit_char b"
  then have "(of_char (digit_char a) :: nat) = of_char (digit_char b)"
    by simp
  then show "a = b"
    by (simp only: of_char_digit [OF assms(1)] of_char_digit [OF assms(2)] add_left_cancel)
qed simp

lemma lex10:
  fixes q r q' r' :: nat
  assumes "r < 10" "r' < 10"
  shows "(q < q' \<or> (q = q' \<and> (r < r' \<or> (r = r' \<and> T))))
         \<longleftrightarrow> (10 * q + r < 10 * q' + r' \<or> (10 * q + r = 10 * q' + r' \<and> T))"
  using assms by (cases T) auto

lemma text_le_pad:
  assumes "n < 10 ^ k" and "n' < 10 ^ k"
  shows "text_le (pad k n @ s) (pad k n' @ s') \<longleftrightarrow> n < n' \<or> (n = n' \<and> text_le s s')"
  using assms
proof (induction k arbitrary: n n' s s')
  case 0
  then show ?case by simp
next
  case (Suc k)
  from Suc.prems have d: "n div 10 < 10 ^ k" "n' div 10 < 10 ^ k"
    by (simp_all add: less_mult_imp_div_less)
  have m: "n mod 10 < 10" "n' mod 10 < 10"
    by simp_all
  have "text_le (pad (Suc k) n @ s) (pad (Suc k) n' @ s')
        \<longleftrightarrow> text_le (pad k (n div 10) @ (digit_char (n mod 10) # s))
                    (pad k (n' div 10) @ (digit_char (n' mod 10) # s'))"
    by simp
  also have "\<dots> \<longleftrightarrow> n div 10 < n' div 10
        \<or> (n div 10 = n' div 10 \<and> (n mod 10 < n' mod 10 \<or> (n mod 10 = n' mod 10 \<and> text_le s s')))"
    by (simp add: Suc.IH [OF d] of_char_digit [OF m(1)] of_char_digit [OF m(2)]
          digit_char_eq_iff [OF m])
  also have "\<dots> \<longleftrightarrow> 10 * (n div 10) + n mod 10 < 10 * (n' div 10) + n' mod 10
        \<or> (10 * (n div 10) + n mod 10 = 10 * (n' div 10) + n' mod 10 \<and> text_le s s')"
    by (rule lex10 [OF m])
  also have "\<dots> \<longleftrightarrow> n < n' \<or> (n = n' \<and> text_le s s')"
    by (simp only: mult_div_mod_eq)
  finally show ?case .
qed

lemma text_le_pad_end:
  assumes "n < 10 ^ k" and "n' < 10 ^ k"
  shows "text_le (pad k n) (pad k n') \<longleftrightarrow> n \<le> n'"
  using text_le_pad [OF assms, of "[]" "[]"] by auto

lemma text_le_date:
  assumes "y < 10000" "y' < 10000" "m < 100" "m' < 100" "d < 100" "d' < 100"
  shows "text_le (pad 4 y @ ''-'' @ pad 2 m @ ''-'' @ pad 2 d)
                 (pad 4 y' @ ''-'' @ pad 2 m' @ ''-'' @ pad 2 d')
         \<longleftrightarrow> y < y' \<or> (y = y' \<and> (m < m' \<or> (m = m' \<and> d \<le> d')))"
proof -
  have "text_le (pad 4 y @ ''-'' @ pad 2 m @ ''-'' @ pad 2 d)
                (pad 4 y' @ ''-'' @ pad 2 m' @ ''-'' @ pad 2 d')
        \<longleftrightarrow> y < y' \<or> (y = y' \<and> text_le (''-'' @ pad 2 m @ ''-'' @ pad 2 d)
                                          (''-'' @ pad 2 m' @ ''-'' @ pad 2 d'))"
    using assms(1,2) by (intro text_le_pad) simp_all
  also have "text_le (''-'' @ pad 2 m @ ''-'' @ pad 2 d) (''-'' @ pad 2 m' @ ''-'' @ pad 2 d')
        \<longleftrightarrow> text_le (pad 2 m @ ''-'' @ pad 2 d) (pad 2 m' @ ''-'' @ pad 2 d')"
    by simp
  also have "\<dots> \<longleftrightarrow> m < m' \<or> (m = m' \<and> text_le (''-'' @ pad 2 d) (''-'' @ pad 2 d'))"
    using assms(3,4) by (intro text_le_pad) simp_all
  also have "text_le (''-'' @ pad 2 d) (''-'' @ pad 2 d') \<longleftrightarrow> text_le (pad 2 d) (pad 2 d')"
    by simp
  also have "\<dots> \<longleftrightarrow> d \<le> d'"
    using assms(5,6) by (intro text_le_pad_end) simp_all
  finally show ?thesis .
qed

lemma str_nat_small: "n < 10 \<Longrightarrow> str_nat n = [digit_char n]"
  by (subst str_nat.simps) simp

lemma str_nat_large: "\<not> n < 10 \<Longrightarrow> str_nat n = str_nat (n div 10) @ [digit_char (n mod 10)]"
  by (subst str_nat.simps) simp

lemma four_Suc: "(4::nat) = Suc (Suc (Suc (Suc 0)))"
  by simp

lemma pad_4:
  "pad 4 n = [digit_char (n div 10 div 10 div 10 mod 10), digit_char (n div 10 div 10 mod 10),
              digit_char (n div 10 mod 10), digit_char (n mod 10)]"
  by (subst four_Suc) (simp del: div_mult2_eq)

lemma str_nat_pad4:
  assumes "1000 \<le> n" and "n < 10000"
  shows "str_nat n = pad 4 n"
proof -
  define q1 q2 q3 where "q1 = n div 10" and "q2 = q1 div 10" and "q3 = q2 div 10"
  have a: "\<not> n < 10" "\<not> q1 < 10" "\<not> q2 < 10" "q3 < 10"
    unfolding q1_def q2_def q3_def using assms by simp_all
  have "str_nat n = str_nat q1 @ [digit_char (n mod 10)]"
    unfolding q1_def by (rule str_nat_large [OF a(1)])
  also have "str_nat q1 = str_nat q2 @ [digit_char (q1 mod 10)]"
    unfolding q2_def by (rule str_nat_large [OF a(2)])
  also have "str_nat q2 = str_nat q3 @ [digit_char (q2 mod 10)]"
    unfolding q3_def by (rule str_nat_large [OF a(3)])
  also have "str_nat q3 = [digit_char (q3 mod 10)]"
    using a(4) by (simp add: str_nat_small)
  finally have l: "str_nat n = [digit_char (q3 mod 10), digit_char (q2 mod 10),
                     digit_char (q1 mod 10), digit_char (n mod 10)]"
    by simp
  have r: "pad 4 n = [digit_char (q3 mod 10), digit_char (q2 mod 10),
                     digit_char (q1 mod 10), digit_char (n mod 10)]"
    unfolding q1_def q2_def q3_def by (rule pad_4)
  from l r show ?thesis by simp
qed

lemma civil_from_days_min: "civil_from_days (- 719162) = (1, 1, 1)"
  by code_simp

lemma civil_from_days_max: "civil_from_days 2932896 = (9999, 12, 31)"
  by code_simp

lemma civil_from_days_1000: "civil_from_days (- 354285) = (1000, 1, 1)"
  by code_simp

lemma days_in_month_le: "days_in_month y m \<le> 31"
  by (simp add: days_in_month_def)

lemma civil_from_days_range:
  assumes "min_day \<le> dn" and "dn \<le> max_day" and "civil_from_days dn = (y, m, d)"
  shows "1 \<le> y \<and> y \<le> 9999 \<and> 1 \<le> m \<and> m \<le> 12 \<and> 1 \<le> d \<and> d \<le> 31"
proof -
  have "date_le (civil_from_days (- 719162)) (civil_from_days dn)"
    using assms(1) by (simp add: date_le_civil_iff min_day_def)
  then have lo: "1 \<le> y"
    unfolding civil_from_days_min assms(3) by (auto simp add: date_le_def)
  have "date_le (civil_from_days dn) (civil_from_days 2932896)"
    using assms(2) by (simp add: date_le_civil_iff max_day_def)
  then have hi: "y \<le> 9999"
    unfolding civil_from_days_max assms(3) by (auto simp add: date_le_def)
  from civil_from_days_spec [OF assms(3)] days_in_month_le [of y m] lo hi
  show ?thesis by simp
qed

lemma civil_from_days_year_1000:
  assumes "- 354285 \<le> dn" and "civil_from_days dn = (y, m, d)"
  shows "1000 \<le> y"
proof -
  have "date_le (civil_from_days (- 354285)) (civil_from_days dn)"
    using assms(1) by (simp add: date_le_civil_iff)
  then show ?thesis
    unfolding civil_from_days_1000 assms(2) by (auto simp add: date_le_def)
qed

lemma text_le_date_text:
  assumes "min_day \<le> a" "a \<le> max_day" "min_day \<le> b" "b \<le> max_day"
  shows "text_le (date_text a) (date_text b) \<longleftrightarrow> a \<le> b"
proof -
  obtain y m d where A: "civil_from_days a = (y, m, d)"
    by (cases "civil_from_days a")
  obtain y' m' d' where B: "civil_from_days b = (y', m', d')"
    by (cases "civil_from_days b")
  note ra = civil_from_days_range [OF assms(1,2) A]
   and rb = civil_from_days_range [OF assms(3,4) B]
  have "text_le (date_text a) (date_text b)
        \<longleftrightarrow> nat y < nat y' \<or> (nat y = nat y' \<and> (nat m < nat m' \<or> (nat m = nat m' \<and> nat d \<le> nat d')))"
    unfolding date_text_def A B prod.case
    using ra rb by (intro text_le_date) linarith+
  also have "\<dots> \<longleftrightarrow> date_le (civil_from_days a) (civil_from_days b)"
    unfolding A B date_le_def prod.case using ra rb by auto
  also have "\<dots> \<longleftrightarrow> a \<le> b"
    by (rule date_le_civil_iff)
  finally show ?thesis .
qed

lemma strftime_ymd_date_text:
  assumes "- 354285 \<le> date_of t" and "date_of t \<le> max_day"
  shows "strftime_ymd t = date_text (date_of t)"
proof -
  obtain y m d where A: "civil_from_days (date_of t) = (y, m, d)"
    by (cases "civil_from_days (date_of t)")
  have "min_day \<le> date_of t"
    using assms(1) by (simp add: min_day_def)
  from civil_from_days_range [OF this assms(2) A] civil_from_days_year_1000 [OF assms(1) A]
  have "1000 \<le> nat y" "nat y < 10000"
    by linarith+
  then have "str_nat (nat y) = pad 4 (nat y)"
    by (rule str_nat_pad4)
  then show ?thesis
    by (simp add: strftime_ymd_def date_text_def A)
qed

lemma date_of_back: "date_of (now - k * day_us) = date_of now - k"
proof -
  have "(now + (- k) * day_us) div day_us = now div day_us + (- k)"
    by (simp add: day_us_def)
  then show ?thesis by (simp add: date_of_def)
qed

lemma sqlite_day_range:
  assumes "sqlite_day t = Some dn"
  shows "min_day \<le> dn \<and> dn \<le> max_day"
  using assms
  by (cases "civil_from_days (date_of t)")
     (auto simp add: sqlite_day_def split: if_splits)

lemma sqlite_day_plain:
  assumes "min_day \<le> date_of t" "date_of t \<le> max_day" "t mod day_us < 86399999500"
  shows "sqlite_day t = Some (date_of t)"
  using assms
  by (cases "civil_from_days (date_of t)") (simp add: sqlite_day_def)

paragraph \<open>The query\<close>

lemma mod_back: "(now - k * day_us) mod day_us = now mod day_us"
proof -
  have "(now + (- k) * day_us) mod day_us = now mod day_us"
    by (rule mod_mult_self1)
  then show ?thesis by simp
qed

lemma window_text:
  assumes n0: "- 354285 \<le> date_of now" "date_of now \<le> max_day"
      and b0: "- 354285 \<le> date_of now - days" "date_of now - days \<le> max_day"
  shows "(case sqlite_date t of
            None \<Rightarrow> False
          | Some date \<Rightarrow> text_le (strftime_ymd (now - days * day_us)) date
                         \<and> text_le date (strftime_ymd now))
         \<longleftrightarrow> (case sqlite_day t of
                None \<Rightarrow> False
              | Some dn \<Rightarrow> date_of now - days \<le> dn \<and> dn \<le> date_of now)"
proof (cases "sqlite_day t")
  case None
  then show ?thesis by (simp add: sqlite_date_def)
next
  case (Some dn)
  from sqlite_day_range [OF Some] have r: "min_day \<le> dn" "dn \<le> max_day"
    by simp_all
  have n: "strftime_ymd now = date_text (date_of now)"
    using n0 by (rule strftime_ymd_date_text)
  have b: "strftime_ymd (now - days * day_us) = date_text (date_of now - days)"
    using b0 strftime_ymd_date_text [of "now - days * day_us"]
    by (simp add: date_of_back)
  have rn: "min_day \<le> date_of now" and rb: "min_day \<le> date_of now - days"
    using n0(1) b0(1) by (simp_all add: min_day_def)
  show ?thesis
    unfolding sqlite_date_def Some option.case n b
    by (simp only: text_le_date_text [OF rb b0(2) r] text_le_date_text [OF r rn n0(2)])
qed

lemma fetch_in_range:
  assumes n0: "- 354285 \<le> date_of now" "date_of now \<le> max_day"
      and b0: "- 354285 \<le> date_of now - days" "date_of now - days \<le> max_day"
  shows "fetch_last_days_completed_challenges db guild days now =
           Inr (filter (\<lambda>c. responded_at_str c \<noteq> None
                  \<and> (case sqlite_day (created_str c) of
                        None \<Rightarrow> False
                      | Some dn \<Rightarrow> date_of now - days \<le> dn \<and> dn \<le> date_of now)
                  \<and> (case guild of None \<Rightarrow> True | Some g \<Rightarrow> c_guild_id c = g))
                (challenges_tbl db))"
proof -
  have d: "\<not> (days < - 999999999 \<or> 999999999 < days)"
    using n0 b0 by (simp add: max_day_def)
  have o: "\<not> (date_of (now - days * day_us) < min_day \<or> max_day < date_of (now - days * day_us))"
    using b0 by (simp add: date_of_back min_day_def)
  note w = window_text [OF n0 b0]
  show ?thesis
  proof (cases guild)
    case None
    then show ?thesis
      unfolding fetch_last_days_completed_challenges_def Let_def
      by (simp only: d o if_False option.case w) (auto intro: filter_cong)
  next
    case (Some g)
    then show ?thesis
      unfolding fetch_last_days_completed_challenges_def Let_def
      by (simp only: d o if_False option.case w) (auto intro: filter_cong)
  qed
qed

lemma days_ago_in_window:
  assumes n0: "- 354285 \<le> date_of now" "date_of now \<le> max_day"
      and b0: "- 354285 \<le> date_of now - days" "date_of now - days \<le> max_day"
      and tod: "now mod day_us < 86399999500"
  shows "(case sqlite_day (now - k * day_us) of
            None \<Rightarrow> False
          | Some dn \<Rightarrow> date_of now - days \<le> dn \<and> dn \<le> date_of now)
         \<longleftrightarrow> 0 \<le> k \<and> k \<le> days"
proof (cases "min_day \<le> date_of now - k \<and> date_of now - k \<le> max_day")
  case True
  then have "sqlite_day (now - k * day_us) = Some (date_of now - k)"
    using tod sqlite_day_plain [of "now - k * day_us"]
    by (simp add: date_of_back mod_back)
  then show ?thesis by auto
next
  case False
  then have "sqlite_day (now - k * day_us) = None"
    by (auto simp add: sqlite_day_def date_of_back)
  moreover from False n0 b0 have "\<not> (0 \<le> k \<and> k \<le> days)"
    by (auto simp add: min_day_def max_day_def)
  ultimately show ?thesis by simp
qed

text \<open>
  Claim C7 has the query return, for every number of days, exactly the answered
  challenges whose creation date lies in the window of that many days. On the code that
  fails in three ways. With 1000000000 days \<^verbatim>\<open>timedelta\<close> raises
  \<^verbatim>\<open>OverflowError\<close>, and with 740000 days the subtraction does, the start of the
  window lying before the year 1. With 400000 days the start lies in the year 931, whose
  text \<^verbatim>\<open>931-09-06\<close> is not before \<^verbatim>\<open>2026-11-04\<close> as text: the challenge
  created and answered at this moment is not returned. And a challenge created at
  23:59:59.999600 on the 31st of October is dated to the 1st of November by SQLite: four
  days later at the same time of day, with 3 days asked for, it is returned although its
  creation date lies before the window.
\<close>

theorem fetch_last_days_completed_challenges_counterexample:
  "(let now = 1793801520000000;
        c = \<lparr>c_id = 1, created_str = now, c_guild_id = 123456,
              text_channel_id = 1234565, message_id = 111, challenge_type = ''solo'',
              responding_member_id = Some 99999, responded_at_str = Some now\<rparr>;
        db = \<lparr>challenges_tbl = [c], match_type_roles_tbl = []\<rparr>;
        late = 1793836799999600;
        old = \<lparr>c_id = 1, created_str = late - 4 * day_us, c_guild_id = 123456,
                text_channel_id = 1234565, message_id = 111, challenge_type = ''solo'',
                responding_member_id = Some 99999, responded_at_str = Some late\<rparr>
    in fetch_last_days_completed_challenges db None 1000000000 now = Inl OverflowError
     \<and> fetch_last_days_completed_challenges db None 740000 now = Inl OverflowError
     \<and> fetch_last_days_completed_challenges db None 400000 now = Inr []
     \<and> date_of (created_str old) < date_of late - 3
     \<and> fetch_last_days_completed_challenges
           \<lparr>challenges_tbl = [old], match_type_roles_tbl = []\<rparr> None 3 late = Inr [old])"
  by code_simp

text \<open>
  Claim C7, as the code has it. Let \<open>now\<close> and the instant \<open>days\<close> days before it
  both lie in the years 1000 to 9999 (day number -354285 is 1000-01-01). Then the query
  returns exactly the rows that have a response, whose creation date as SQLite's
  \<^verbatim>\<open>date\<close> gives it is no earlier than the date \<open>days\<close> days before today's and
  no later than today's, both ends included and by calendar date, not by time of day,
  and that belong to the guild when one is given. SQLite's date of a stored instant of
  \<^verbatim>\<open>datetime\<close> is its UTC calendar date unless the instant lies in the last half
  millisecond of its day. In particular, when \<open>now\<close> does not lie in the last half
  millisecond of its day, an answered challenge created exactly \<open>k\<close> days before
  \<open>now\<close> is returned if and only if \<open>0 \<le> k \<le> days\<close>: with \<open>days = 3\<close>, those
  of 3, 2, 1 and 0 days ago and not the one of 5 days ago.
\<close>

theorem fetch_last_days_completed_challenges_window:
  assumes "- 354285 \<le> date_of now" and "date_of now \<le> max_day"
      and "- 354285 \<le> date_of now - days" and "date_of now - days \<le> max_day"
  shows "fetch_last_days_completed_challenges db guild days now =
           Inr (filter (\<lambda>c. responded_at_str c \<noteq> None
                  \<and> (case sqlite_day (created_str c) of
                        None \<Rightarrow> False
                      | Some dn \<Rightarrow> date_of now - days \<le> dn \<and> dn \<le> date_of now)
                  \<and> (case guild of None \<Rightarrow> True | Some g \<Rightarrow> c_guild_id c = g))
                (challenges_tbl db))
       \<and> (\<forall>t. min_day \<le> date_of t \<and> date_of t \<le> max_day \<and> t mod day_us < 86399999500
              \<longrightarrow> sqlite_day t = Some (date_of t))
       \<and> (\<forall>c k. now mod day_us < 86399999500
                \<and> c \<in> set (challenges_tbl db) \<and> responded_at_str c \<noteq> None
                \<and> created_str c = now - k * day_us
              \<longrightarrow> (c \<in> set (projr (fetch_last_days_completed_challenges db None days now))
                     \<longleftrightarrow> 0 \<le> k \<and> k \<le> days))"
proof (intro conjI)
  show "fetch_last_days_completed_challenges db guild days now =
           Inr (filter (\<lambda>c. responded_at_str c \<noteq> None
                  \<and> (case sqlite_day (created_str c) of
                        None \<Rightarrow> False
                      | Some dn \<Rightarrow> date_of now - days \<le> dn \<and> dn \<le> date_of now)
                  \<and> (case guild of None \<Rightarrow> True | Some g \<Rightarrow> c_guild_id c = g))
                (challenges_tbl db))"
    using assms by (rule fetch_in_range)
  show "\<forall>t. min_day \<le> date_of t \<and> date_of t \<le> max_day \<and> t mod day_us < 86399999500
              \<longrightarrow> sqlite_day t = Some (date_of t)"
    by (simp add: sqlite_day_plain)
  show "\<forall>c k. now mod day_us < 86399999500
                \<and> c \<in> set (challenges_tbl db) \<and> responded_at_str c \<noteq> None
                \<and> created_str c = now - k * day_us
              \<longrightarrow> (c \<in> set (projr (fetch_last_days_completed_challenges db None days now))
                     \<longleftrightarrow> 0 \<le> k \<and> k \<le> days)"
  proof (intro allI impI)
    fix c k
    assume a: "now mod day_us < 86399999500
                \<and> c \<in> set (challenges_tbl db) \<and> responded_at_str c \<noteq> None
                \<and> created_str c = now - k * day_us"
    then have tod: "now mod day_us < 86399999500" by simp
    from a days_ago_in_window [OF assms tod, of k]
    show "c \<in> set (projr (fetch_last_days_completed_challenges db None days now))
                     \<longleftrightarrow> 0 \<le> k \<and> k \<le> days"
      by (simp add: fetch_in_range [OF assms])
  qed
qed

lemma example_days:
  "sqlite_day 1793369520000000 = Some 20756"
  "sqlite_day 1793542320000000 = Some 20758"
  "sqlite_day 1793628720000000 = Some 20759"
  "sqlite_day 1793715120000000 = Some 20760"
  "sqlite_day 1793801520000000 = Some 20761"
  "sqlite_day 1793493000000000 = Some 20758"
  by code_simp+

theorem fetch_last_days_completed_challenges_window_witness:
  "(let now = 1793801520000000;
        c5 = \<lparr>c_id = 1, created_str = now - 5 * day_us, c_guild_id = 123456,
              text_channel_id = 1234565, message_id = 111, challenge_type = ''solo'',
              responding_member_id = Some 99999, responded_at_str = Some now\<rparr>;
        c3 = \<lparr>c_id = 2, created_str = now - 3 * day_us, c_guild_id = 12312452346,
              text_channel_id = 4632324, message_id = 333, challenge_type = ''solo'',
              responding_member_id = Some 99999, responded_at_str = Some now\<rparr>;
        c2 = \<lparr>c_id = 3, created_str = now - 2 * day_us, c_guild_id = 123456,
              text_channel_id = 1234565, message_id = 444, challenge_type = ''solo'',
              responding_member_id = Some 99999, responded_at_str = Some now\<rparr>;
        c1 = \<lparr>c_id = 4, created_str = now - 1 * day_us, c_guild_id = 3434,
              text_channel_id = 3434, message_id = 555, challenge_type = ''solo'',
              responding_member_id = Some 99999, responded_at_str = Some now\<rparr>;
        c0 = \<lparr>c_id = 5, created_str = now - 0 * day_us, c_guild_id = 12312452346,
              text_channel_id = 4632324, message_id = 666, challenge_type = ''solo'',
              responding_member_id = Some 99999, responded_at_str = Some now\<rparr>;
        db = \<lparr>challenges_tbl = [c5, c3, c2, c1, c0], match_type_roles_tbl = []\<rparr>
    in - 354285 \<le> date_of now \<and> date_of now \<le> max_day
     \<and> - 354285 \<le> date_of now - 3 \<and> date_of now - 3 \<le> max_day
     \<and> now mod day_us < 86399999500
     \<and> fetch_last_days_completed_challenges db None 3 now = Inr [c3, c2, c1, c0]
     \<and> fetch_last_days_completed_challenges db (Some 123456) 3 now = Inr [c2]
     \<and> 3 * day_us < now - 1793493000000000
     \<and> fetch_last_days_completed_challenges
           \<lparr>challenges_tbl = [c3\<lparr>created_str := 1793493000000000\<rparr>],
              match_type_roles_tbl = []\<rparr> None 3 now
         = Inr [c3\<lparr>created_str := 1793493000000000\<rparr>])"
proof -
  have range: "- 354285 \<le> date_of 1793801520000000" "date_of 1793801520000000 \<le> max_day"
    "- 354285 \<le> date_of 1793801520000000 - 3" "date_of 1793801520000000 - 3 \<le> max_day"
    by (simp_all add: date_of_def day_us_def max_day_def)
  note query = fetch_last_days_completed_challenges_window [OF range, THEN conjunct1]
  have today: "date_of 1793801520000000 = 20761"
    by (simp add: date_of_def day_us_def)
  show ?thesis
    using range
    by (simp add: Let_def query today day_us_def example_days)
qed

section \<open>Properties of the cog's handlers\<close>

lemma request_without_type:
  "contains (lower ''New Match Request received! Type: Ranked Duo'') ''new match request received!''
   \<and> re_search ''New Match Request received! Type: Ranked Duo'' = None"
  by code_simp

lemma utils_get_ident: "utils_get ident xs i = Some x \<Longrightarrow> ident x = i"
  by (auto simp add: utils_get_def find_Some_iff)

lemma map_filter_map: "List.map_filter (\<lambda>r. r) (map f xs) = List.map_filter f xs"
  by (induction xs) (simp_all split: option.split)

subsection \<open>Inbound messages\<close>

text \<open>
  Claim C3 asks that \<open>on_message\<close> return without raising, treating the message as no
  request, when the content is recognised as a match request and the type pattern finds
  nothing in it. The handler subscripts the result of the search without testing it. On
  the message below, which announces a request of a type the pattern does not know,
  \<open>is_match_request\<close> holds, \<open>re_search\<close> finds nothing, and the handler raises
  \<open>TypeError\<close>.
\<close>

theorem on_message_unparsed_request_raises:
  "(let cog = \<lparr>bot_user = 1, bot_guilds = [\<lparr>g_id = 4, g_roles = []\<rparr>],
               bot_db = \<lparr>challenges_tbl = [], match_type_roles_tbl = []\<rparr>,
               challenges = Map.empty, match_roles = Map.empty, effects = []\<rparr>;
        message = \<lparr>msg_id = 111, author = \<lparr>member_id = 2, member_mention = ''<@2>''\<rparr>,
                   content = ''New Match Request received! Type: Ranked Duo'',
                   channel_id = 3, msg_guild = Some 4, reference = None\<rparr>
    in is_match_request message \<and> re_search (content message) = None
     \<and> on_message cog message = (Inl TypeError, cog))"
  using request_without_type
  by (simp add: on_message_def is_match_request_def Let_def)

subsection \<open>The timeout check\<close>

text \<open>
  Claim C4 asks of the timeout check that a challenge missing from the cache be read from
  the repository, that the check end silently when the repository has no record either,
  and that a record with a response make the check a no-op. The last holds for a cached
  record (third state below: the handler returns and dispatches nothing). For a challenge
  missing from the cache the handler calls \<open>fetch_challenge\<close> without the connection
  and raises \<open>TypeError\<close>, whether the repository holds the open record (state
  \<open>stored\<close>) or not (state \<open>lost\<close>).
\<close>

theorem on_new_challenge_fire_uncached_raises:
  "(let c = \<lparr>c_id = 1, created_str = 50, c_guild_id = 4, text_channel_id = 3,
             message_id = 111, challenge_type = ''solo'', responding_member_id = None,
             responded_at_str = None\<rparr>;
        message = \<lparr>msg_id = 111, author = \<lparr>member_id = 2, member_mention = ''<@2>''\<rparr>,
                   content = ''New Match Request received! Type: Ranked Solo'',
                   channel_id = 3, msg_guild = Some 4, reference = None\<rparr>;
        stored = \<lparr>bot_user = 1, bot_guilds = [\<lparr>g_id = 4, g_roles = []\<rparr>],
                  bot_db = \<lparr>challenges_tbl = [c], match_type_roles_tbl = []\<rparr>,
                  challenges = Map.empty, match_roles = Map.empty, effects = []\<rparr>;
        lost = \<lparr>bot_user = 1, bot_guilds = [\<lparr>g_id = 4, g_roles = []\<rparr>],
                bot_db = \<lparr>challenges_tbl = [], match_type_roles_tbl = []\<rparr>,
                challenges = Map.empty, match_roles = Map.empty, effects = []\<rparr>
    in fetch_challenge (bot_db stored) (msg_id message) = Some c \<and> is_open c
     \<and> on_new_challenge_fire stored message = (Inl TypeError, stored)
     \<and> fetch_challenge (bot_db lost) (msg_id message) = None
     \<and> on_new_challenge_fire lost message = (Inl TypeError, lost)
     \<and> on_new_challenge_fire
           (stored\<lparr>challenges := [111 \<mapsto> c\<lparr>responding_member_id := Some 7,
                                              responded_at_str := Some 60\<rparr>]\<rparr>) message
         = (Inr (), stored\<lparr>challenges := [111 \<mapsto> c\<lparr>responding_member_id := Some 7,
                                                     responded_at_str := Some 60\<rparr>]\<rparr>))"
  by (simp add: on_new_challenge_fire_def fetch_challenge_def is_open_def responded_at_def Let_def)

subsection \<open>Acceptance of an answered challenge\<close>

text \<open>
  Claim C5 has the engine recover from the error of a second acceptance. A reply that
  accepts a challenge with a recorded response is dispatched like any other (the first
  equation below), and \<open>on_challenge_accepted\<close> does not catch the
  \<open>ChallengeResponded\<close> that \<open>respond_to_challenge\<close> raises: the handler itself
  raises it.
\<close>

theorem on_challenge_accepted_duplicate_counterexample:
  "(let c = \<lparr>c_id = 1, created_str = 50, c_guild_id = 4, text_channel_id = 3,
             message_id = 111, challenge_type = ''solo'', responding_member_id = Some 7,
             responded_at_str = Some 60\<rparr>;
        cog = \<lparr>bot_user = 1, bot_guilds = [\<lparr>g_id = 4, g_roles = []\<rparr>],
               bot_db = \<lparr>challenges_tbl = [c], match_type_roles_tbl = []\<rparr>,
               challenges = [111 \<mapsto> c], match_roles = Map.empty, effects = []\<rparr>;
        message = \<lparr>msg_id = 222, author = \<lparr>member_id = 8, member_mention = ''<@8>''\<rparr>,
                   content = ''accept'', channel_id = 3, msg_guild = Some 4,
                   reference = Some 111\<rparr>
    in on_message cog message
         = (Inr (), cog\<lparr>effects := [Dispatch (Challenge_accepted c message)]\<rparr>)
     \<and> fst (on_challenge_accepted cog c message 70) = Inl ChallengeResponded)"
  by (simp add: on_message_def is_match_request_def on_challenge_accepted_def
        answer_challenge_def respond_to_challenge_def Let_def lower_def lower_char_def)

text \<open>
  Claim C5, as the code has it. For every acceptance of a challenge whose stored record
  has a respondent, \<open>on_challenge_accepted\<close> raises \<open>ChallengeResponded\<close> and
  leaves the whole state as it was, so no acknowledgement is sent, the cache is not
  touched and the database is not changed.
\<close>

theorem on_challenge_accepted_duplicate:
  assumes "fetch_challenge (bot_db cog) (message_id challenge) = Some c"
      and "responding_member_id c \<noteq> None"
  shows "on_challenge_accepted cog challenge message now = (Inl ChallengeResponded, cog)"
proof -
  from assms(2) obtain k where "responding_member_id c = Some k"
    by auto
  with assms(1) have "respond_to_challenge (bot_db cog) (message_id challenge)
                     (member_id (author message)) now = (Inl ChallengeResponded, bot_db cog)"
    by (simp add: fetch_challenge_def respond_closed)
  then show ?thesis
    by (simp add: on_challenge_accepted_def answer_challenge_def)
qed

theorem on_challenge_accepted_duplicate_witness:
  "(let c = \<lparr>c_id = 1, created_str = 50, c_guild_id = 4, text_channel_id = 3,
             message_id = 111, challenge_type = ''solo'', responding_member_id = Some 7,
             responded_at_str = Some 60\<rparr>;
        cog = \<lparr>bot_user = 1, bot_guilds = [\<lparr>g_id = 4, g_roles = []\<rparr>],
               bot_db = \<lparr>challenges_tbl = [c], match_type_roles_tbl = []\<rparr>,
               challenges = [111 \<mapsto> c], match_roles = Map.empty, effects = []\<rparr>;
        message = \<lparr>msg_id = 222, author = \<lparr>member_id = 8, member_mention = ''<@8>''\<rparr>,
                   content = ''accept'', channel_id = 3, msg_guild = Some 4,
                   reference = Some 111\<rparr>
    in fetch_challenge (bot_db cog) (message_id c) = Some c
     \<and> responding_member_id c \<noteq> None
     \<and> on_challenge_accepted cog c message 70 = (Inl ChallengeResponded, cog))"
  using on_challenge_accepted_duplicate
    [of "\<lparr>bot_user = 1, bot_guilds = [\<lparr>g_id = 4, g_roles = []\<rparr>],
               bot_db = \<lparr>challenges_tbl = [\<lparr>c_id = 1, created_str = 50, c_guild_id = 4,
                  text_channel_id = 3, message_id = 111, challenge_type = ''solo'',
                  responding_member_id = Some 7, responded_at_str = Some 60\<rparr>],
                  match_type_roles_tbl = []\<rparr>,
               challenges = [111 \<mapsto> \<lparr>c_id = 1, created_str = 50, c_guild_id = 4,
                  text_channel_id = 3, message_id = 111, challenge_type = ''solo'',
                  responding_member_id = Some 7, responded_at_str = Some 60\<rparr>],
               match_roles = Map.empty, effects = []\<rparr>"
        "\<lparr>c_id = 1, created_str = 50, c_guild_id = 4,
                  text_channel_id = 3, message_id = 111, challenge_type = ''solo'',
                  responding_member_id = Some 7, responded_at_str = Some 60\<rparr>"
        _
        "\<lparr>msg_id = 222, author = \<lparr>member_id = 8, member_mention = ''<@8>''\<rparr>,
                   content = ''accept'', channel_id = 3, msg_guild = Some 4,
                   reference = Some 111\<rparr>" 70]
  by (simp add: fetch_challenge_def Let_def)

subsection \<open>The timeout transition\<close>

text \<open>
  Claim C6 has every timeout transition emit the notification.
  \<open>on_challenge_timeout\<close> sends it only when the challenge's guild is among the
  guilds the bot knows. In the state below the
  guild is not: the timeout check dispatches the event, the handler drops the challenge
  from the cache and returns, and nothing is sent.
\<close>

theorem on_challenge_timeout_unknown_guild_counterexample:
  "(let c = \<lparr>c_id = 1, created_str = 50, c_guild_id = 4, text_channel_id = 3,
             message_id = 111, challenge_type = ''solo'', responding_member_id = None,
             responded_at_str = None\<rparr>;
        cog = \<lparr>bot_user = 1, bot_guilds = [],
               bot_db = \<lparr>challenges_tbl = [c], match_type_roles_tbl = []\<rparr>,
               challenges = [111 \<mapsto> c], match_roles = Map.empty, effects = []\<rparr>;
        message = \<lparr>msg_id = 111, author = \<lparr>member_id = 2, member_mention = ''<@2>''\<rparr>,
                   content = ''New Match Request received! Type: Ranked Solo'',
                   channel_id = 3, msg_guild = Some 4, reference = None\<rparr>
    in on_new_challenge_fire cog message
         = (Inr (), cog\<lparr>effects := [Dispatch (Challenge_timeout c message)]\<rparr>)
     \<and> fst (on_challenge_timeout cog c message) = Inr ()
     \<and> challenges (snd (on_challenge_timeout cog c message)) 111 = None
     \<and> effects (snd (on_challenge_timeout cog c message)) = [])"
  by (simp add: on_new_challenge_fire_def is_open_def responded_at_def
        on_challenge_timeout_def utils_get_def Let_def)

lemma timeout_known_guild:
  assumes "challenges cog (message_id challenge) = Some cached"
      and "utils_get g_id (bot_guilds cog) (c_guild_id challenge) = Some guild"
  shows "on_challenge_timeout cog challenge message =
           (Inr (),
            cog\<lparr>challenges := (challenges cog)(message_id challenge := None),
                effects := effects cog @
                  [Message_reply (msg_id message)
                     (join '' '' (map r_mention
                        (get_guild_roles cog guild (Some (challenge_type challenge))))
                      @ '' This order is still up!'')]\<rparr>)
       \<and> get_guild_roles cog guild (Some (challenge_type challenge)) =
           List.map_filter (\<lambda>mr. utils_get r_id (g_roles guild) (role_id mr))
             (filter (\<lambda>mr. match_type mr = challenge_type challenge)
                (case match_roles cog (c_guild_id challenge) of None \<Rightarrow> [] | Some rs \<Rightarrow> rs))
       \<and> (get_guild_roles cog guild (Some (challenge_type challenge)) = [] \<longrightarrow>
            effects (snd (on_challenge_timeout cog challenge message)) =
              effects cog @ [Message_reply (msg_id message) '' This order is still up!''])"
proof -
  let ?cog' = "cog\<lparr>challenges := (challenges cog)(message_id challenge := None)\<rparr>"
  have roles: "get_guild_roles ?cog' guild (Some (challenge_type challenge))
                 = get_guild_roles cog guild (Some (challenge_type challenge))"
    by (simp add: get_guild_roles_def)
  have run: "on_challenge_timeout cog challenge message =
           (Inr (),
            cog\<lparr>challenges := (challenges cog)(message_id challenge := None),
                effects := effects cog @
                  [Message_reply (msg_id message)
                     (join '' '' (map r_mention
                        (get_guild_roles cog guild (Some (challenge_type challenge))))
                      @ '' This order is still up!'')]\<rparr>)"
    using assms by (simp add: on_challenge_timeout_def Let_def roles)
  have gid: "g_id guild = c_guild_id challenge"
    using assms(2) by (rule utils_get_ident)
  have lookup: "get_guild_roles cog guild (Some (challenge_type challenge)) =
           List.map_filter (\<lambda>mr. utils_get r_id (g_roles guild) (role_id mr))
             (filter (\<lambda>mr. match_type mr = challenge_type challenge)
                (case match_roles cog (c_guild_id challenge) of None \<Rightarrow> [] | Some rs \<Rightarrow> rs))"
    by (simp add: get_guild_roles_def gid Let_def map_filter_map)
  have empty: "get_guild_roles cog guild (Some (challenge_type challenge)) = [] \<longrightarrow>
            effects (snd (on_challenge_timeout cog challenge message)) =
              effects cog @ [Message_reply (msg_id message) '' This order is still up!'']"
    by (simp add: run)
  from run lookup empty show ?thesis by (intro conjI)
qed

lemma timeout_unknown_guild:
  assumes "challenges cog (message_id challenge) = Some cached"
      and "utils_get g_id (bot_guilds cog) (c_guild_id challenge) = None"
  shows "on_challenge_timeout cog challenge message =
           (Inr (), cog\<lparr>challenges := (challenges cog)(message_id challenge := None)\<rparr>)"
  using assms by (simp add: on_challenge_timeout_def Let_def)

text \<open>
  Claim C6, as the code has it. For every cached challenge, \<open>on_challenge_timeout\<close>
  returns and removes the challenge from the cache. When the bot knows the challenge's
  guild, it replies to the message with the mentions of the roles \<open>get_guild_roles\<close>
  finds, joined by spaces, before the text \<^verbatim>\<open> This order is still up!\<close>; those roles
  are the roles of the guild that a mapping cached for the challenge's guild id and type
  names, and when there are none the reply is still sent, with no mention in it. When
  the bot does not know the guild, nothing is sent: the state changes in the cache only.
\<close>

theorem on_challenge_timeout_notifies:
  assumes "challenges cog (message_id challenge) = Some cached"
  shows "(\<forall>guild. utils_get g_id (bot_guilds cog) (c_guild_id challenge) = Some guild \<longrightarrow>
           on_challenge_timeout cog challenge message =
             (Inr (),
              cog\<lparr>challenges := (challenges cog)(message_id challenge := None),
                  effects := effects cog @
                    [Message_reply (msg_id message)
                       (join '' '' (map r_mention
                          (get_guild_roles cog guild (Some (challenge_type challenge))))
                        @ '' This order is still up!'')]\<rparr>)
         \<and> get_guild_roles cog guild (Some (challenge_type challenge)) =
             List.map_filter (\<lambda>mr. utils_get r_id (g_roles guild) (role_id mr))
               (filter (\<lambda>mr. match_type mr = challenge_type challenge)
                  (case match_roles cog (c_guild_id challenge) of None \<Rightarrow> [] | Some rs \<Rightarrow> rs))
         \<and> (get_guild_roles cog guild (Some (challenge_type challenge)) = [] \<longrightarrow>
              effects (snd (on_challenge_timeout cog challenge message)) =
                effects cog @ [Message_reply (msg_id message) '' This order is still up!'']))
       \<and> (utils_get g_id (bot_guilds cog) (c_guild_id challenge) = None \<longrightarrow>
            on_challenge_timeout cog challenge message =
              (Inr (), cog\<lparr>challenges := (challenges cog)(message_id challenge := None)\<rparr>))"
proof (rule conjI)
  show "\<forall>guild. utils_get g_id (bot_guilds cog) (c_guild_id challenge) = Some guild \<longrightarrow>
           on_challenge_timeout cog challenge message =
             (Inr (),
              cog\<lparr>challenges := (challenges cog)(message_id challenge := None),
                  effects := effects cog @
                    [Message_reply (msg_id message)
                       (join '' '' (map r_mention
                          (get_guild_roles cog guild (Some (challenge_type challenge))))
                        @ '' This order is still up!'')]\<rparr>)
         \<and> get_guild_roles cog guild (Some (challenge_type challenge)) =
             List.map_filter (\<lambda>mr. utils_get r_id (g_roles guild) (role_id mr))
               (filter (\<lambda>mr. match_type mr = challenge_type challenge)
                  (case match_roles cog (c_guild_id challenge) of None \<Rightarrow> [] | Some rs \<Rightarrow> rs))
         \<and> (get_guild_roles cog guild (Some (challenge_type challenge)) = [] \<longrightarrow>
              effects (snd (on_challenge_timeout cog challenge message)) =
                effects cog @ [Message_reply (msg_id message) '' This order is still up!''])"
    by (intro allI impI) (rule timeout_known_guild [OF assms])
  show "utils_get g_id (bot_guilds cog) (c_guild_id challenge) = None \<longrightarrow>
            on_challenge_timeout cog challenge message =
              (Inr (), cog\<lparr>challenges := (challenges cog)(message_id challenge := None)\<rparr>)"
    by (rule impI) (rule timeout_unknown_guild [OF assms])
qed

theorem on_challenge_timeout_notifies_witness:
  "(let c = \<lparr>c_id = 1, created_str = 50, c_guild_id = 4, text_channel_id = 3,
             message_id = 111, challenge_type = ''solo'', responding_member_id = None,
             responded_at_str = None\<rparr>;
        guild = \<lparr>g_id = 4, g_roles = [\<lparr>r_id = 10, r_mention = ''<@&10>''\<rparr>,
                                       \<lparr>r_id = 11, r_mention = ''<@&11>''\<rparr>,
                                       \<lparr>r_id = 13, r_mention = ''<@&13>''\<rparr>]\<rparr>;
        registered = [4 \<mapsto> [\<lparr>mr_id = 1, mr_guild_id = 4, match_type = ''solo'', role_id = 10\<rparr>,
                                \<lparr>mr_id = 2, mr_guild_id = 4, match_type = ''solo ultra'', role_id = 11\<rparr>,
                                \<lparr>mr_id = 3, mr_guild_id = 4, match_type = ''solo'', role_id = 12\<rparr>,
                                \<lparr>mr_id = 4, mr_guild_id = 4, match_type = ''solo'', role_id = 13\<rparr>]];
        cog = \<lparr>bot_user = 1, bot_guilds = [guild],
               bot_db = \<lparr>challenges_tbl = [c], match_type_roles_tbl = []\<rparr>,
               challenges = [111 \<mapsto> c], match_roles = registered, effects = []\<rparr>;
        message = \<lparr>msg_id = 111, author = \<lparr>member_id = 2, member_mention = ''<@2>''\<rparr>,
                   content = ''New Match Request received! Type: Ranked Solo'',
                   channel_id = 3, msg_guild = Some 4, reference = None\<rparr>
    in challenges cog (message_id c) = Some c
     \<and> utils_get g_id (bot_guilds cog) (c_guild_id c) = Some guild
     \<and> fst (on_challenge_timeout cog c message) = Inr ()
     \<and> challenges (snd (on_challenge_timeout cog c message)) 111 = None
     \<and> effects (snd (on_challenge_timeout cog c message))
           = [Message_reply 111 ''<@&10> <@&13> This order is still up!'']
     \<and> effects (snd (on_challenge_timeout (cog\<lparr>match_roles := Map.empty\<rparr>) c message))
           = [Message_reply 111 '' This order is still up!'']
     \<and> utils_get g_id (bot_guilds (cog\<lparr>bot_guilds := []\<rparr>)) (c_guild_id c) = None
     \<and> on_challenge_timeout (cog\<lparr>bot_guilds := []\<rparr>) c message
           = (Inr (), cog\<lparr>bot_guilds := [], challenges := Map.empty\<rparr>))"
  using on_challenge_timeout_notifies
    [of "\<lparr>bot_user = 1,
          bot_guilds = [\<lparr>g_id = 4, g_roles = [\<lparr>r_id = 10, r_mention = ''<@&10>''\<rparr>,
                                       \<lparr>r_id = 11, r_mention = ''<@&11>''\<rparr>,
                                       \<lparr>r_id = 13, r_mention = ''<@&13>''\<rparr>]\<rparr>],
          bot_db = \<lparr>challenges_tbl = [\<lparr>c_id = 1, created_str = 50, c_guild_id = 4,
             text_channel_id = 3, message_id = 111, challenge_type = ''solo'',
             responding_member_id = None, responded_at_str = None\<rparr>], match_type_roles_tbl = []\<rparr>,
          challenges = [111 \<mapsto> \<lparr>c_id = 1, created_str = 50, c_guild_id = 4,
             text_channel_id = 3, message_id = 111, challenge_type = ''solo'',
             responding_member_id = None, responded_at_str = None\<rparr>],
          match_roles =
            [4 \<mapsto> [\<lparr>mr_id = 1, mr_guild_id = 4, match_type = ''solo'', role_id = 10\<rparr>,
                    \<lparr>mr_id = 2, mr_guild_id = 4, match_type = ''solo ultra'', role_id = 11\<rparr>,
                    \<lparr>mr_id = 3, mr_guild_id = 4, match_type = ''solo'', role_id = 12\<rparr>,
                    \<lparr>mr_id = 4, mr_guild_id = 4, match_type = ''solo'', role_id = 13\<rparr>]],
          effects = []\<rparr>"
        "\<lparr>c_id = 1, created_str = 50, c_guild_id = 4,
             text_channel_id = 3, message_id = 111, challenge_type = ''solo'',
             responding_member_id = None, responded_at_str = None\<rparr>"
        _
        "\<lparr>msg_id = 111, author = \<lparr>member_id = 2, member_mention = ''<@2>''\<rparr>,
                   content = ''New Match Request received! Type: Ranked Solo'',
                   channel_id = 3, msg_guild = Some 4, reference = None\<rparr>"]
  by (simp add: on_challenge_timeout_def utils_get_def get_guild_roles_def Let_def)

end
